theory Spec2Isabelle
  imports Main
begin

section \<open>The runtime: numbers, strings and dates\<close>

text \<open>
  The two batch pages (\<^verbatim>\<open>batch-ret/page.tsx\<close>, the retention batch, and the legal hold
  batch) are TypeScript over the JavaScript runtime. The part of the runtime they call is
  modelled here after ECMA-262. Strings are lists of characters with code points below 256.
  A time value is an integer number of milliseconds since the epoch, within
  \<open>\<plusminus>maxTime\<close>; a \<^verbatim>\<open>Date\<close> object is its time value, or \<open>None\<close> when it is an Invalid
  Date (the time value \<^verbatim>\<open>NaN\<close>), and a number read from it is an integer, or \<open>None\<close> for
  \<^verbatim>\<open>NaN\<close>. The local time zone is the function \<open>tz\<close>, the \<open>LocalTZA\<close> of ECMA-262:
  \<open>tz t True\<close> is the offset from UTC in force at the UTC time \<open>t\<close>, \<open>tz t False\<close> the
  offset by which the local time \<open>t\<close> is read (the two differ around a change of offset,
  as with daylight saving).
\<close>

subsection \<open>Numbers and strings\<close>

text \<open>\<^verbatim>\<open>Number(d.d_r_month)\<close>: an integer, or a value that \<^verbatim>\<open>Number.isFinite\<close> rejects.\<close>

datatype jsnum = Finite int | NotFinite

fun isFinite :: "jsnum \<Rightarrow> bool" where
  "isFinite (Finite n) = True"
| "isFinite NotFinite = False"

text \<open>The integer of a finite number; it is only read after \<open>isFinite\<close> has held.\<close>

fun toInt :: "jsnum \<Rightarrow> int" where
  "toInt (Finite n) = n"
| "toInt NotFinite = 0"

fun showNat :: "nat \<Rightarrow> string" where
  "showNat n = (if n < 10 then [''0123456789'' ! n]
                else showNat (n div 10) @ [''0123456789'' ! (n mod 10)])"

declare showNat.simps [simp del]

text \<open>\<^verbatim>\<open>String(n)\<close> for an integer.\<close>

definition String :: "int \<Rightarrow> string" where
  "String n = (if n < 0 then CHR ''-'' # showNat (nat (- n)) else showNat (nat n))"

definition padStart :: "nat \<Rightarrow> char \<Rightarrow> string \<Rightarrow> string" where
  "padStart k c s = replicate (k - length s) c @ s"

text \<open>\<^verbatim>\<open>String(n)\<close> for a number that may be \<^verbatim>\<open>NaN\<close>, and \<^verbatim>\<open>a < b\<close> on such numbers.\<close>

definition StringNaN :: "int option \<Rightarrow> string" where
  "StringNaN n = (case n of None \<Rightarrow> ''NaN'' | Some k \<Rightarrow> String k)"

definition numLess :: "int option \<Rightarrow> int option \<Rightarrow> bool" where
  "numLess a b = (case a of None \<Rightarrow> False | Some x \<Rightarrow> (case b of None \<Rightarrow> False | Some y \<Rightarrow> x < y))"

definition pad2 :: "int option \<Rightarrow> string" where
  "pad2 n = padStart 2 CHR ''0'' (StringNaN n)"

definition pad3 :: "int option \<Rightarrow> string" where
  "pad3 n = padStart 3 CHR ''0'' (StringNaN n)"

text \<open>White space and line terminators of ECMA-262 below code point 256.\<close>

definition isWhiteSpace :: "char \<Rightarrow> bool" where
  "isWhiteSpace c = ((of_char c :: nat) \<in> {9, 10, 11, 12, 13, 32, 160})"

definition trim :: "string \<Rightarrow> string" where
  "trim s = rev (dropWhile isWhiteSpace (rev (dropWhile isWhiteSpace s)))"

definition toLowerChar :: "char \<Rightarrow> char" where
  "toLowerChar c =
     (let n = (of_char c :: nat)
      in if (65 \<le> n \<and> n \<le> 90) \<or> (192 \<le> n \<and> n \<le> 222 \<and> n \<noteq> 215)
         then char_of (n + 32) else c)"

definition toLowerCase :: "string \<Rightarrow> string" where
  "toLowerCase s = map toLowerChar s"

text \<open>\<^verbatim>\<open>norm(s)\<close> is \<^verbatim>\<open>(s ?? "").trim()\<close>; \<open>None\<close> is \<^verbatim>\<open>null\<close>.\<close>

definition norm :: "string option \<Rightarrow> string" where
  "norm s = trim (case s of None \<Rightarrow> [] | Some x \<Rightarrow> x)"

text \<open>Truthiness of a \<^verbatim>\<open>string | null\<close>: neither \<^verbatim>\<open>null\<close> nor empty.\<close>

definition truthy :: "string option \<Rightarrow> bool" where
  "truthy s = (case s of None \<Rightarrow> False | Some x \<Rightarrow> x \<noteq> [])"

subsection \<open>Time values (ECMA-262, Date objects)\<close>

definition msPerDay :: int where
  "msPerDay = 86400000"

definition Day :: "int \<Rightarrow> int" where
  "Day t = t div msPerDay"

definition TimeWithinDay :: "int \<Rightarrow> int" where
  "TimeWithinDay t = t mod msPerDay"

definition DaysInYear :: "int \<Rightarrow> int" where
  "DaysInYear y =
     (if y mod 4 \<noteq> 0 then 365 else if y mod 100 \<noteq> 0 then 366
      else if y mod 400 \<noteq> 0 then 365 else 366)"

definition DayFromYear :: "int \<Rightarrow> int" where
  "DayFromYear y =
     365 * (y - 1970) + (y - 1969) div 4 - (y - 1901) div 100 + (y - 1601) div 400"

text \<open>
  The year of a day number: ECMA-262 asks for the largest \<open>y\<close> with
  \<open>DayFromYear y \<le> day\<close>. It is computed from the mean length of a year, 146097 days in
  400 years, and corrected by one year at most (lemma \<open>YearFromDay_bounds\<close>).
\<close>

definition YearFromDay :: "int \<Rightarrow> int" where
  "YearFromDay day =
     (let y0 = 1970 + (400 * day) div 146097
      in if DayFromYear (y0 + 1) \<le> day then y0 + 1
         else if DayFromYear y0 \<le> day then y0 else y0 - 1)"

definition YearFromTime :: "int \<Rightarrow> int" where
  "YearFromTime t = YearFromDay (Day t)"

definition InLeapYearOf :: "int \<Rightarrow> int" where
  "InLeapYearOf y = (if DaysInYear y = 366 then 1 else 0)"

definition InLeapYear :: "int \<Rightarrow> int" where
  "InLeapYear t = InLeapYearOf (YearFromTime t)"

definition DayWithinYear :: "int \<Rightarrow> int" where
  "DayWithinYear t = Day t - DayFromYear (YearFromTime t)"

text \<open>The table of ECMA-262 for the month of a day within a year; \<open>L\<close> is 1 in a leap year.\<close>

definition MonthFromDay :: "int \<Rightarrow> int \<Rightarrow> int" where
  "MonthFromDay L d =
     (if d < 31 then 0 else if d < 59 + L then 1 else if d < 90 + L then 2
      else if d < 120 + L then 3 else if d < 151 + L then 4 else if d < 181 + L then 5
      else if d < 212 + L then 6 else if d < 243 + L then 7 else if d < 273 + L then 8
      else if d < 304 + L then 9 else if d < 334 + L then 10 else 11)"

text \<open>The day within the year on which month \<open>m\<close> (0 to 11) begins.\<close>

definition MonthStart :: "int \<Rightarrow> int \<Rightarrow> int" where
  "MonthStart L m =
     (if m = 0 then 0 else if m = 1 then 31 else if m = 2 then 59 + L
      else if m = 3 then 90 + L else if m = 4 then 120 + L else if m = 5 then 151 + L
      else if m = 6 then 181 + L else if m = 7 then 212 + L else if m = 8 then 243 + L
      else if m = 9 then 273 + L else if m = 10 then 304 + L else 334 + L)"

text \<open>The number of days of month \<open>m\<close> (0 to 11) of year \<open>y\<close>.\<close>

definition DaysInMonth :: "int \<Rightarrow> int \<Rightarrow> int" where
  "DaysInMonth y m =
     (if m = 1 then 28 + InLeapYearOf y else if m \<in> {3, 5, 8, 10} then 30 else 31)"

definition MonthFromTime :: "int \<Rightarrow> int" where
  "MonthFromTime t = MonthFromDay (InLeapYear t) (DayWithinYear t)"

definition DateFromTime :: "int \<Rightarrow> int" where
  "DateFromTime t = DayWithinYear t - MonthStart (InLeapYear t) (MonthFromTime t) + 1"

definition HourFromTime :: "int \<Rightarrow> int" where
  "HourFromTime t = (t div 3600000) mod 24"

definition MinFromTime :: "int \<Rightarrow> int" where
  "MinFromTime t = (t div 60000) mod 60"

definition SecFromTime :: "int \<Rightarrow> int" where
  "SecFromTime t = (t div 1000) mod 60"

definition msFromTime :: "int \<Rightarrow> int" where
  "msFromTime t = t mod 1000"

text \<open>
  \<open>MakeDay year month date\<close>: the day number of the first of the month, months beyond
  0 to 11 carried into the year, plus \<open>date - 1\<close>, whatever \<open>date\<close> is.
\<close>

definition MakeDay :: "int \<Rightarrow> int \<Rightarrow> int \<Rightarrow> int" where
  "MakeDay year month date =
     (let ym = year + month div 12; mn = month mod 12
      in DayFromYear ym + MonthStart (InLeapYearOf ym) mn + date - 1)"

definition MakeDate :: "int \<Rightarrow> int \<Rightarrow> int" where
  "MakeDate day time = day * msPerDay + time"

definition maxTime :: int where
  "maxTime = 8640000000000000"

text \<open>\<open>TimeClip\<close>: a time beyond the range is no time value.\<close>

definition TimeClip :: "int \<Rightarrow> int option" where
  "TimeClip t = (if \<bar>t\<bar> > maxTime then None else Some t)"

type_synonym zone = "int \<Rightarrow> bool \<Rightarrow> int"

definition LocalTime :: "zone \<Rightarrow> int \<Rightarrow> int" where
  "LocalTime tz t = t + tz t True"

definition UTC :: "zone \<Rightarrow> int \<Rightarrow> int" where
  "UTC tz t = t - tz t False"

text \<open>
  The methods of \<^verbatim>\<open>Date\<close> that the pages call. On an Invalid Date every getter answers
  \<^verbatim>\<open>NaN\<close> and every setter leaves it invalid.
\<close>

definition getFullYear :: "zone \<Rightarrow> int option \<Rightarrow> int option" where
  "getFullYear tz d = (case d of None \<Rightarrow> None | Some t \<Rightarrow> Some (YearFromTime (LocalTime tz t)))"

definition getMonth :: "zone \<Rightarrow> int option \<Rightarrow> int option" where
  "getMonth tz d = (case d of None \<Rightarrow> None | Some t \<Rightarrow> Some (MonthFromTime (LocalTime tz t)))"

definition getDate :: "zone \<Rightarrow> int option \<Rightarrow> int option" where
  "getDate tz d = (case d of None \<Rightarrow> None | Some t \<Rightarrow> Some (DateFromTime (LocalTime tz t)))"

definition getHours :: "zone \<Rightarrow> int option \<Rightarrow> int option" where
  "getHours tz d = (case d of None \<Rightarrow> None | Some t \<Rightarrow> Some (HourFromTime (LocalTime tz t)))"

definition getMinutes :: "zone \<Rightarrow> int option \<Rightarrow> int option" where
  "getMinutes tz d = (case d of None \<Rightarrow> None | Some t \<Rightarrow> Some (MinFromTime (LocalTime tz t)))"

definition getSeconds :: "zone \<Rightarrow> int option \<Rightarrow> int option" where
  "getSeconds tz d = (case d of None \<Rightarrow> None | Some t \<Rightarrow> Some (SecFromTime (LocalTime tz t)))"

definition getMilliseconds :: "zone \<Rightarrow> int option \<Rightarrow> int option" where
  "getMilliseconds tz d = (case d of None \<Rightarrow> None | Some t \<Rightarrow> Some (msFromTime (LocalTime tz t)))"

text \<open>
  \<^verbatim>\<open>d.setMonth(m)\<close> and \<^verbatim>\<open>d.setDate(dt)\<close>: the new value of \<open>d\<close>, clipped to the range
  of time values.
\<close>

definition setMonth ::
  "zone \<Rightarrow> int option \<Rightarrow> int option \<Rightarrow> int option" where
  "setMonth tz d m =
     (case d of
        None \<Rightarrow> None
      | Some t \<Rightarrow>
          (case m of
             None \<Rightarrow> None
           | Some mo \<Rightarrow>
               let lt = LocalTime tz t
               in TimeClip (UTC tz (MakeDate (MakeDay (YearFromTime lt) mo (DateFromTime lt))
                                      (TimeWithinDay lt)))))"

definition setDate ::
  "zone \<Rightarrow> int option \<Rightarrow> int option \<Rightarrow> int option" where
  "setDate tz d dt =
     (case d of
        None \<Rightarrow> None
      | Some t \<Rightarrow>
          (case dt of
             None \<Rightarrow> None
           | Some da \<Rightarrow>
               let lt = LocalTime tz t
               in TimeClip (UTC tz (MakeDate (MakeDay (YearFromTime lt) (MonthFromTime lt) da)
                                      (TimeWithinDay lt)))))"

text \<open>
  \<^verbatim>\<open>new Date(year, month, date).getTime()\<close>: local midnight of that day, clipped; a year
  from 0 to 99 stands for 1900 to 1999, and \<^verbatim>\<open>NaN\<close> for any of the three gives
  \<^verbatim>\<open>NaN\<close>.
\<close>

definition newDateYMD ::
  "zone \<Rightarrow> int option \<Rightarrow> int option \<Rightarrow> int option \<Rightarrow> int option" where
  "newDateYMD tz year month date =
     (case year of
        None \<Rightarrow> None
      | Some y \<Rightarrow>
          (case month of
             None \<Rightarrow> None
           | Some m \<Rightarrow>
               (case date of
                  None \<Rightarrow> None
                | Some dt \<Rightarrow>
                    let yr = (if 0 \<le> y \<and> y \<le> 99 then 1900 + y else y)
                    in TimeClip (UTC tz (MakeDate (MakeDay yr m dt) 0)))))"

text \<open>
  What the theorems on calendar days ask of the time zone: every offset is less than a
  day, the offsets by which two local times are read differ by less than a day, and a
  local time read as UTC and shown again as local time is on the same calendar day (a
  change of offset may move the time of day, as daylight saving does, but skips no
  midnight).
\<close>

definition wellBehaved :: "zone \<Rightarrow> bool" where
  "wellBehaved tz =
     ((\<forall>x b. \<bar>tz x b\<bar> < msPerDay) \<and>
      (\<forall>x y. \<bar>tz x False - tz y False\<bar> < msPerDay) \<and>
      (\<forall>x. Day (LocalTime tz (UTC tz x)) = Day x))"

section \<open>The retention batch\<close>

subsection \<open>Rows\<close>

text \<open>
  \<open>EmpMini\<close> and \<open>RetDoc\<close> are the row types of \<^verbatim>\<open>batch-ret/page.tsx\<close>; \<open>Employee\<close> is a
  row of the table \<^verbatim>\<open>employees\<close> with the column \<^verbatim>\<open>e_lhold\<close> that the legal hold batch
  filters on.
\<close>

record EmpMini =
  e_id :: string
  e_status :: "string option"
  e_tdate :: "string option"

record Employee = EmpMini +
  e_lhold :: "bool option"

record RetDoc =
  d_id :: string
  e_id :: "string option"
  e_lhold :: "bool option"
  d_date :: "string option"
  d_r_trigger :: string
  d_r_rule :: string
  d_r_month :: jsnum
  d_r_deletion :: "string option"
  d_r_status :: "string option"

subsection \<open>Helpers of the page\<close>

definition toISODate :: "zone \<Rightarrow> int option \<Rightarrow> string" where
  "toISODate tz d =
     (let yyyy = StringNaN (getFullYear tz d);
          mm = padStart 2 CHR ''0'' (StringNaN (map_option (\<lambda>m. m + 1) (getMonth tz d)));
          dd = padStart 2 CHR ''0'' (StringNaN (getDate tz d))
      in yyyy @ ''-'' @ mm @ ''-'' @ dd)"

definition dateOnlyTs :: "zone \<Rightarrow> int option \<Rightarrow> int option" where
  "dateOnlyTs tz d = newDateYMD tz (getFullYear tz d) (getMonth tz d) (getDate tz d)"

definition isExpiredPerSpec ::
  "zone \<Rightarrow> int option \<Rightarrow> int option \<Rightarrow> bool" where
  "isExpiredPerSpec tz deletion today = numLess (dateOnlyTs tz deletion) (dateOnlyTs tz today)"

definition addMonths :: "zone \<Rightarrow> int option \<Rightarrow> int \<Rightarrow> int option" where
  "addMonths tz base months =
     (let d = base;
          day = getDate tz d;
          d = setMonth tz d (map_option (\<lambda>m. m + months) (getMonth tz d))
      in if numLess (getDate tz d) day then setDate tz d (Some 0) else d)"

definition isTerminated :: "EmpMini option \<Rightarrow> bool" where
  "isTerminated emp =
     (case emp of None \<Rightarrow> False
      | Some e \<Rightarrow> toLowerCase (norm (e_status e)) = ''terminated'')"

subsection \<open>The target pair of one document\<close>

text \<open>
  The body of the loop over \<^verbatim>\<open>allDocs\<close> in \<^verbatim>\<open>runBatch\<close>, from the declaration of
  \<^verbatim>\<open>newStatus\<close> to the end of the branching: the pair \<^verbatim>\<open>(newStatus, newDeletion)\<close>.
  \<open>newDate\<close> is \<^verbatim>\<open>new Date(s)\<close> of the runtime on a string, \<open>None\<close> when the date is
  invalid; \<open>empMap\<close> is the map of the employees loaded, \<open>today\<close> the clock read before
  the loop (a reading of the clock is a time value).
\<close>

definition targetPair ::
  "zone \<Rightarrow> (string \<Rightarrow> int option) \<Rightarrow> int \<Rightarrow> (string \<rightharpoonup> EmpMini) \<Rightarrow> RetDoc
     \<Rightarrow> string \<times> string option" where
  "targetPair tz newDate today empMap d =
     (if e_lhold d = Some True then (''legal hold'', None)
      else
        let trig = toLowerCase (norm (Some (d_r_trigger d)));
            months = d_r_month d
        in if trig = [] \<or> \<not> isFinite months then (''not started'', None)
           else if trig = ''termination'' then
             (let emp = (if truthy (e_id d) then empMap (the (e_id d)) else None)
              in if emp = None \<or> \<not> isTerminated emp then (''not started'', None)
                 else
                   let tdate = (if truthy (e_tdate (the emp))
                                then newDate (the (e_tdate (the emp))) else None)
                   in case tdate of
                        None \<Rightarrow> (''not started'', None)
                      | Some td \<Rightarrow>
                          let del = addMonths tz (Some td) (toInt months)
                          in (if isExpiredPerSpec tz del (Some today) then ''expired''
                              else ''started'', Some (toISODate tz del)))
           else if trig = ''cassation date'' then
             (let base = (if truthy (d_date d) then newDate (the (d_date d)) else None)
              in case base of
                   None \<Rightarrow> (''not started'', None)
                 | Some b \<Rightarrow>
                     let del = addMonths tz (Some b) (toInt months)
                     in (if isExpiredPerSpec tz del (Some today) then ''expired''
                         else ''started'', Some (toISODate tz del)))
           else (''not started'', None))"

subsection \<open>The loop over the documents\<close>

text \<open>
  An entry of \<^verbatim>\<open>updates\<close>: \<^verbatim>\<open>d_id\<close>, \<^verbatim>\<open>d_r_status\<close> and \<^verbatim>\<open>d_r_deletion\<close>.
\<close>

type_synonym Update = "string \<times> string \<times> string option"

text \<open>
  \<^verbatim>\<open>changed\<close>: the stored status and deletion date, each through \<^verbatim>\<open>norm\<close>, against the
  new pair (\<^verbatim>\<open>newDeletion ?? ""\<close>).
\<close>

definition changed :: "RetDoc \<Rightarrow> string \<times> string option \<Rightarrow> bool" where
  "changed d tp =
     (let oldStatus = norm (d_r_status d);
          oldDeletion = norm (d_r_deletion d);
          nextDeletion = (case snd tp of None \<Rightarrow> [] | Some x \<Rightarrow> x)
      in oldStatus \<noteq> fst tp \<or> oldDeletion \<noteq> nextDeletion)"

text \<open>
  One turn of the loop on \<^verbatim>\<open>statusCounts\<close> and \<^verbatim>\<open>updates\<close>; a document with an empty
  \<^verbatim>\<open>d_id\<close> is passed over. A status missing from \<^verbatim>\<open>statusCounts\<close> counts from 0
  (\<^verbatim>\<open>?? 0\<close>), so the record is a function into the naturals.
\<close>

definition processDoc ::
  "zone \<Rightarrow> (string \<Rightarrow> int option) \<Rightarrow> int \<Rightarrow> (string \<rightharpoonup> EmpMini) \<Rightarrow>
     (string \<Rightarrow> nat) \<times> Update list \<Rightarrow> RetDoc \<Rightarrow> (string \<Rightarrow> nat) \<times> Update list" where
  "processDoc tz newDate today empMap acc d =
     (if d_id d = [] then acc
      else
        let tp = targetPair tz newDate today empMap d;
            statusCounts = (fst acc)(fst tp := fst acc (fst tp) + 1)
        in (statusCounts,
            if changed d tp then snd acc @ [(d_id d, fst tp, snd tp)] else snd acc))"

definition processDocs ::
  "zone \<Rightarrow> (string \<Rightarrow> int option) \<Rightarrow> int \<Rightarrow> (string \<rightharpoonup> EmpMini) \<Rightarrow> RetDoc list
     \<Rightarrow> (string \<Rightarrow> nat) \<times> Update list" where
  "processDocs tz newDate today empMap allDocs =
     foldl (processDoc tz newDate today empMap) (\<lambda>_. 0, []) allDocs"

subsection \<open>The store and the page\<close>

text \<open>
  The two tables, each a list of rows in the order the store yields them (the order asked
  of the store, by \<^verbatim>\<open>d_id\<close>, is not modelled), and the state of a page: \<^verbatim>\<open>busy\<close>,
  \<^verbatim>\<open>status\<close> and the \<^verbatim>\<open>rows\<close> of the report.
\<close>

record Store =
  employees :: "Employee list"
  documents :: "RetDoc list"

record OutRow =
  label :: string
  "value" :: string
  isBlank :: bool

record Page =
  busy :: bool
  status :: string
  rows :: "OutRow list"

definition setValue :: "string \<Rightarrow> string \<Rightarrow> Page \<Rightarrow> Page" where
  "setValue l v pg = pg\<lparr>rows := map (\<lambda>r. if label r = l then r\<lparr>value := v\<rparr> else r) (rows pg)\<rparr>"

definition clearAllValues :: "Page \<Rightarrow> Page" where
  "clearAllValues pg = pg\<lparr>rows := map (\<lambda>r. if isBlank r then r else r\<lparr>value := []\<rparr>) (rows pg)\<rparr>"

text \<open>
  What the table of the page shows beside the label \<open>l\<close>: the values of the rows with
  that label that are not blank (a blank row is rendered as an empty spacer).
\<close>

definition shown :: "string \<Rightarrow> Page \<Rightarrow> string list" where
  "shown l pg = map value (filter (\<lambda>r. label r = l \<and> \<not> isBlank r) (rows pg))"

definition fmtTimeWithMs :: "zone \<Rightarrow> int option \<Rightarrow> string" where
  "fmtTimeWithMs tz d =
     pad2 (getHours tz d) @ '':'' @ pad2 (getMinutes tz d) @ '':'' @ pad2 (getSeconds tz d)
       @ ''.'' @ pad3 (getMilliseconds tz d)"

text \<open>
  \<^verbatim>\<open>chunk(arr, size)\<close>; the pages pass 500 and 200 (with 0 the loop of the source would
  not end).
\<close>

function chunk :: "'a list \<Rightarrow> nat \<Rightarrow> 'a list list" where
  "chunk arr sz =
     (if arr = [] \<or> sz = 0 then [] else take sz arr # chunk (drop sz arr) sz)"
  by pat_completeness auto
termination
  by (relation "measure (\<lambda>(arr, sz). length arr)") auto

declare chunk.simps [simp del]

text \<open>\<^verbatim>\<open>Array.from(new Set(xs))\<close>: the first occurrence of each element, in order.\<close>

definition uniq :: "'a list \<Rightarrow> 'a list" where
  "uniq xs = rev (remdups (rev xs))"

subsection \<open>A run of the retention batch\<close>

text \<open>
  A request to the store either fails with a message or answers from the tables:
  \<open>faults k\<close> is the error of the \<open>k\<close>-th request of the run, if it has one. A \<^verbatim>\<open>throw\<close>
  is the value \<open>Some message\<close> (or \<open>Inl message\<close>), handed to the \<^verbatim>\<open>catch\<close>.
\<close>

text \<open>\<^verbatim>\<open>select("e_id, e_status, e_tdate").in("e_id", part)\<close> on the employees.\<close>

definition selectEmployees :: "string list \<Rightarrow> Employee list \<Rightarrow> EmpMini list" where
  "selectEmployees part emps =
     map EmpMini.truncate (filter (\<lambda>e. EmpMini.e_id e \<in> set part) emps)"

fun loadEmployees ::
  "(nat \<Rightarrow> string option) \<Rightarrow> Employee list \<Rightarrow> string list list \<Rightarrow> nat \<Rightarrow> (string \<rightharpoonup> EmpMini)
     \<Rightarrow> string + ((string \<rightharpoonup> EmpMini) \<times> nat)" where
  "loadEmployees faults emps [] k empMap = Inr (empMap, k)"
| "loadEmployees faults emps (part # parts) k empMap =
     (case faults k of
        Some err \<Rightarrow> Inl err
      | None \<Rightarrow>
          loadEmployees faults emps parts (k + 1)
            (foldl (\<lambda>m e. m(EmpMini.e_id e \<mapsto> e)) empMap (selectEmployees part emps)))"

text \<open>\<^verbatim>\<open>update({d_r_status, d_r_deletion}).eq("d_id", u.d_id)\<close> on the documents.\<close>

definition updateRetention :: "Update \<Rightarrow> RetDoc list \<Rightarrow> RetDoc list" where
  "updateRetention u docs =
     map (\<lambda>d. if d_id d = fst u
              then d\<lparr>d_r_status := Some (fst (snd u)), d_r_deletion := snd (snd u)\<rparr> else d) docs"

fun applyUpdates ::
  "(nat \<Rightarrow> string option) \<Rightarrow> Update list \<Rightarrow> nat \<Rightarrow> RetDoc list
     \<Rightarrow> string option \<times> RetDoc list \<times> nat" where
  "applyUpdates faults [] k docs = (None, docs, k)"
| "applyUpdates faults (u # us) k docs =
     (case faults k of
        Some err \<Rightarrow> (Some err, docs, k + 1)
      | None \<Rightarrow> applyUpdates faults us (k + 1) (updateRetention u docs))"

fun applyChunks ::
  "(nat \<Rightarrow> string option) \<Rightarrow> Update list list \<Rightarrow> nat \<Rightarrow> RetDoc list
     \<Rightarrow> string option \<times> RetDoc list \<times> nat" where
  "applyChunks faults [] k docs = (None, docs, k)"
| "applyChunks faults (part # parts) k docs =
     (case applyUpdates faults part k docs of
        (Some err, docs', k') \<Rightarrow> (Some err, docs', k')
      | (None, docs', k') \<Rightarrow> applyChunks faults parts k' docs')"

text \<open>
  The body of the \<^verbatim>\<open>try\<close> of \<^verbatim>\<open>runBatch\<close> in \<^verbatim>\<open>batch-ret/page.tsx\<close>: the error thrown, if
  any, with the store and the page as they are then. \<open>startedAt\<close>, \<open>today\<close> and
  \<open>endedAt\<close> are the readings of the clock, time values.
\<close>

definition tryRetention ::
  "zone \<Rightarrow> (string \<Rightarrow> int option) \<Rightarrow> (nat \<Rightarrow> string option) \<Rightarrow> int \<Rightarrow> int \<Rightarrow> int \<Rightarrow> Store \<Rightarrow> Page
     \<Rightarrow> string option \<times> Store \<times> Page" where
  \<open>tryRetention tz newDate faults startedAt today endedAt st pg =
     (case faults 0 of
        Some docsErr \<Rightarrow> (Some docsErr, st, pg)
      | None \<Rightarrow>
          let allDocs = documents st;
              pg = setValue ''Total number of documents'' (String (int (length allDocs))) pg;
              eIds = uniq (map the (filter truthy (map e_id allDocs)))
          in case loadEmployees faults (employees st) (chunk eIds 500) 1 Map.empty of
               Inl empErr \<Rightarrow> (Some empErr, st, pg)
             | Inr (empMap, k) \<Rightarrow>
                 let res = processDocs tz newDate today empMap allDocs;
                     statusCounts = fst res;
                     updates = snd res;
                     pg = setValue ''Total number of updated retention status''
                            (String (int (length updates))) pg;
                     pg = setValue ''Number of documents in status "not set"''
                            (String (int (statusCounts ''not set''))) pg;
                     pg = setValue ''Number of documents in status "not started"''
                            (String (int (statusCounts ''not started''))) pg;
                     pg = setValue ''Number of documents in status "started"''
                            (String (int (statusCounts ''started''))) pg;
                     pg = setValue ''Number of documents in status "legal hold"''
                            (String (int (statusCounts ''legal hold''))) pg;
                     pg = setValue ''Number of documents in status "expired"''
                            (String (int (statusCounts ''expired''))) pg
                 in case applyChunks faults (chunk updates 200) k (documents st) of
                      (Some err, docs', k') \<Rightarrow> (Some err, st\<lparr>documents := docs'\<rparr>, pg)
                    | (None, docs', k') \<Rightarrow>
                        let pg = setValue ''End time'' (fmtTimeWithMs tz (Some endedAt)) pg;
                            pg = setValue ''Process duration''
                                   (String (endedAt - startedAt) @ '' ms'') pg
                        in (None, st\<lparr>documents := docs'\<rparr>, pg))\<close>

text \<open>
  \<^verbatim>\<open>runBatch\<close> of the retention page: the start, the \<^verbatim>\<open>try\<close>, and the status that its
  end or the \<^verbatim>\<open>catch\<close> sets; \<^verbatim>\<open>finally\<close> clears \<^verbatim>\<open>busy\<close>.
\<close>

definition runBatch_retention ::
  "zone \<Rightarrow> (string \<Rightarrow> int option) \<Rightarrow> (nat \<Rightarrow> string option) \<Rightarrow> int \<Rightarrow> int \<Rightarrow> int \<Rightarrow> Store \<Rightarrow> Page
     \<Rightarrow> Store \<times> Page" where
  "runBatch_retention tz newDate faults startedAt today endedAt st pg =
     (let pg = pg\<lparr>busy := True\<rparr>;
          pg = pg\<lparr>status := []\<rparr>;
          pg = clearAllValues pg;
          pg = setValue ''Start time'' (fmtTimeWithMs tz (Some startedAt)) pg
      in case tryRetention tz newDate faults startedAt today endedAt st pg of
           (None, st', pg') \<Rightarrow>
             (st', pg'\<lparr>status := ''Successful: Retention batch finished.'', busy := False\<rparr>)
         | (Some e, st', pg') \<Rightarrow>
             (st', pg'\<lparr>status := ''Error: '' @ e, busy := False\<rparr>))"

text \<open>
  The requests of a run of the retention batch in which none fails: one for the documents,
  one for each part of the employee identifiers, one for each update. \<open>loadedMap\<close> is
  the map of employees such a run loads, \<open>plannedUpdates\<close> the updates it queues and
  \<open>plannedCounts\<close> the number of documents it counts for each status.
\<close>

definition employeeParts :: "Store \<Rightarrow> string list list" where
  "employeeParts st = chunk (uniq (map the (filter truthy (map e_id (documents st))))) 500"

definition loadedMap :: "Store \<Rightarrow> (string \<rightharpoonup> EmpMini)" where
  "loadedMap st =
     (case loadEmployees (\<lambda>_. None) (employees st) (employeeParts st) 1 Map.empty of
        Inl e \<Rightarrow> Map.empty
      | Inr r \<Rightarrow> fst r)"

definition plannedUpdates ::
  "zone \<Rightarrow> (string \<Rightarrow> int option) \<Rightarrow> int \<Rightarrow> Store \<Rightarrow> Update list" where
  "plannedUpdates tz newDate today st =
     snd (processDocs tz newDate today (loadedMap st) (documents st))"

definition plannedCounts ::
  "zone \<Rightarrow> (string \<Rightarrow> int option) \<Rightarrow> int \<Rightarrow> Store \<Rightarrow> string \<Rightarrow> nat" where
  "plannedCounts tz newDate today st =
     fst (processDocs tz newDate today (loadedMap st) (documents st))"

definition requestsRetention ::
  "zone \<Rightarrow> (string \<Rightarrow> int option) \<Rightarrow> int \<Rightarrow> Store \<Rightarrow> nat" where
  "requestsRetention tz newDate today st =
     1 + length (employeeParts st) + length (plannedUpdates tz newDate today st)"

section \<open>The legal hold batch\<close>

text \<open>
  \<^verbatim>\<open>activateDocIds\<close> and \<^verbatim>\<open>removeDocIds\<close> of \<^verbatim>\<open>runBatch\<close>, from the rows the requests
  return: documents filtered by their own \<^verbatim>\<open>e_lhold\<close>, employees by theirs.
\<close>

definition activateDocIds :: "RetDoc list \<Rightarrow> Employee list \<Rightarrow> string list" where
  "activateDocIds toActivate empYesRows =
     (let empYesSet = set (map EmpMini.e_id empYesRows)
      in map d_id (filter (\<lambda>d. truthy (e_id d) \<and> the (e_id d) \<in> empYesSet) toActivate))"

definition removeDocIds :: "RetDoc list \<Rightarrow> Employee list \<Rightarrow> string list" where
  "removeDocIds toRemove empNoRows =
     (let empNoSet = set (map EmpMini.e_id empNoRows)
      in map d_id (filter (\<lambda>d. truthy (e_id d) \<and> the (e_id d) \<in> empNoSet) toRemove))"

text \<open>The requests \<^verbatim>\<open>.eq("e_lhold", b)\<close>: a row whose flag is null matches neither.\<close>

definition docsWithHold :: "bool \<Rightarrow> RetDoc list \<Rightarrow> RetDoc list" where
  "docsWithHold b docs = filter (\<lambda>d. e_lhold d = Some b) docs"

definition empsWithHold :: "bool \<Rightarrow> Employee list \<Rightarrow> Employee list" where
  "empsWithHold b emps = filter (\<lambda>e. Employee.e_lhold e = Some b) emps"

text \<open>\<^verbatim>\<open>update({ e_lhold: b }).in("d_id", ids)\<close> on the documents.\<close>

definition updateHold :: "bool \<Rightarrow> string list \<Rightarrow> RetDoc list \<Rightarrow> RetDoc list" where
  "updateHold b ids docs = map (\<lambda>d. if d_id d \<in> set ids then d\<lparr>e_lhold := Some b\<rparr> else d) docs"

text \<open>The loop over the chunks of identifiers, with the counter it adds to.\<close>

fun holdChunks ::
  "(nat \<Rightarrow> string option) \<Rightarrow> bool \<Rightarrow> string list list \<Rightarrow> nat \<Rightarrow> RetDoc list \<Rightarrow> nat
     \<Rightarrow> string option \<times> RetDoc list \<times> nat \<times> nat" where
  "holdChunks faults b [] k docs cnt = (None, docs, k, cnt)"
| "holdChunks faults b (ids # rest) k docs cnt =
     (if length ids = 0 then holdChunks faults b rest k docs cnt
      else case faults k of
             Some err \<Rightarrow> (Some err, docs, k + 1, cnt)
           | None \<Rightarrow> holdChunks faults b rest (k + 1) (updateHold b ids docs) (cnt + length ids))"

text \<open>The first error among the answers of \<^verbatim>\<open>Promise.all\<close>.\<close>

fun firstError :: "string option list \<Rightarrow> string option" where
  "firstError [] = None"
| "firstError (Some e # rs) = Some e"
| "firstError (None # rs) = firstError rs"

text \<open>The body of the \<^verbatim>\<open>try\<close> of \<^verbatim>\<open>runBatch\<close> of the legal hold page.\<close>

definition tryLegalHold ::
  "zone \<Rightarrow> (nat \<Rightarrow> string option) \<Rightarrow> int \<Rightarrow> int \<Rightarrow> Store \<Rightarrow> Page \<Rightarrow> string option \<times> Store \<times> Page" where
  "tryLegalHold tz faults startedAt endedAt st pg =
     (case firstError [faults 0, faults 1, faults 2] of
        Some err \<Rightarrow> (Some err, st, pg)
      | None \<Rightarrow>
          let empNo = length (empsWithHold False (employees st));
              empYes = length (empsWithHold True (employees st));
              empTotal = length (employees st);
              pg = setValue ''Employees, Legal Hold = no'' (String (int empNo)) pg;
              pg = setValue ''Employees, Legal Hold = yes'' (String (int empYes)) pg;
              pg = setValue ''Employees, Total'' (String (int empTotal)) pg
          in case faults 3 of
               Some actSelErr \<Rightarrow> (Some actSelErr, st, pg)
             | None \<Rightarrow>
          let toActivate = docsWithHold False (documents st)
          in case faults 4 of
               Some empYesErr \<Rightarrow> (Some empYesErr, st, pg)
             | None \<Rightarrow>
          let empYesRows = empsWithHold True (employees st);
              activateIds = activateDocIds toActivate empYesRows
          in case faults 5 of
               Some remSelErr \<Rightarrow> (Some remSelErr, st, pg)
             | None \<Rightarrow>
          let toRemove = docsWithHold True (documents st)
          in case faults 6 of
               Some empNoErr2 \<Rightarrow> (Some empNoErr2, st, pg)
             | None \<Rightarrow>
          let empNoRows = empsWithHold False (employees st);
              removeIds = removeDocIds toRemove empNoRows
          in case holdChunks faults True (chunk activateIds 500) 7 (documents st) 0 of
               (Some err, docs1, k1, activated) \<Rightarrow> (Some err, st\<lparr>documents := docs1\<rparr>, pg)
             | (None, docs1, k1, activated) \<Rightarrow>
          (case holdChunks faults False (chunk removeIds 500) k1 docs1 0 of
               (Some err, docs2, k2, removed) \<Rightarrow> (Some err, st\<lparr>documents := docs2\<rparr>, pg)
             | (None, docs2, k2, removed) \<Rightarrow>
          let st = st\<lparr>documents := docs2\<rparr>;
              pg = setValue ''Legal Hold activated (Yes) for documents'' (String (int activated)) pg;
              pg = setValue ''Legal Hold removed (No) for documents'' (String (int removed)) pg
          in case firstError [faults k2, faults (k2 + 1), faults (k2 + 2)] of
               Some err \<Rightarrow> (Some err, st, pg)
             | None \<Rightarrow>
          let docNo = length (docsWithHold False (documents st));
              docYes = length (docsWithHold True (documents st));
              docTotal = length (documents st);
              pg = setValue ''Documents, Legal Hold = no'' (String (int docNo)) pg;
              pg = setValue ''Documents, Legal Hold = yes'' (String (int docYes)) pg;
              pg = setValue ''Documents, Total'' (String (int docTotal)) pg;
              pg = setValue ''End time'' (fmtTimeWithMs tz (Some endedAt)) pg;
              pg = setValue ''Process duration'' (String (endedAt - startedAt) @ '' ms'') pg
          in (None, st, pg)))"

definition runBatch_legalHold ::
  "zone \<Rightarrow> (nat \<Rightarrow> string option) \<Rightarrow> int \<Rightarrow> int \<Rightarrow> Store \<Rightarrow> Page \<Rightarrow> Store \<times> Page" where
  "runBatch_legalHold tz faults startedAt endedAt st pg =
     (let pg = pg\<lparr>busy := True\<rparr>;
          pg = pg\<lparr>status := []\<rparr>;
          pg = clearAllValues pg;
          pg = setValue ''Start time'' (fmtTimeWithMs tz (Some startedAt)) pg
      in case tryLegalHold tz faults startedAt endedAt st pg of
           (None, st', pg') \<Rightarrow>
             (st', pg'\<lparr>status := ''Successful: Legal Hold batch finished.'', busy := False\<rparr>)
         | (Some e, st', pg') \<Rightarrow>
             (st', pg'\<lparr>status := ''Error: '' @ e, busy := False\<rparr>))"

text \<open>
  The requests of a run of the legal hold batch in which none fails: three counts of
  employees, four reads, one write for each part of the identifiers to activate and to
  remove, three counts of documents.
\<close>

definition activateParts :: "Store \<Rightarrow> string list list" where
  "activateParts st =
     chunk (activateDocIds (docsWithHold False (documents st)) (empsWithHold True (employees st))) 500"

definition removeParts :: "Store \<Rightarrow> string list list" where
  "removeParts st =
     chunk (removeDocIds (docsWithHold True (documents st)) (empsWithHold False (employees st))) 500"

definition requestsLegalHold :: "Store \<Rightarrow> nat" where
  "requestsLegalHold st = 7 + length (activateParts st) + length (removeParts st) + 3"

section \<open>The date format of the specification\<close>

text \<open>
  The calendar date of ISO 8601 that the specification asks of \<^verbatim>\<open>d_r_deletion\<close>,
  \<^verbatim>\<open>YYYY-MM-DD\<close>, written out digit by digit for a year from 0 to 9999. It is defined
  apart from \<open>toISODate\<close>, which the theorem on the deletion date compares with it.
\<close>

definition digit :: "int \<Rightarrow> char" where
  "digit n = ''0123456789'' ! nat (n mod 10)"

definition twoDigits :: "int \<Rightarrow> string" where
  "twoDigits n = [digit (n div 10), digit n]"



section \<open>Example data\<close>

text \<open>
  The date-only form \<^verbatim>\<open>YYYY-MM-DD\<close> of \<^verbatim>\<open>new Date(s)\<close>, which ECMA-262 reads as UTC
  midnight: the instance of \<open>newDate\<close> in the examples. Every other string is an invalid
  date here.
\<close>

fun digitsVal :: "int \<Rightarrow> string \<Rightarrow> int option" where
  "digitsVal acc [] = Some acc"
| "digitsVal acc (c # cs) =
     (let n = (of_char c :: nat)
      in if 48 \<le> n \<and> n \<le> 57 then digitsVal (10 * acc + int n - 48) cs else None)"

definition isoDate :: "string \<Rightarrow> int option" where
  "isoDate s =
     (if length s = 10 \<and> s ! 4 = CHR ''-'' \<and> s ! 7 = CHR ''-'' then
        (case (digitsVal 0 (take 4 s), digitsVal 0 (take 2 (drop 5 s)), digitsVal 0 (drop 8 s)) of
           (Some y, Some m, Some d) \<Rightarrow>
             if 1 \<le> m \<and> m \<le> 12 \<and> 1 \<le> d \<and> d \<le> DaysInMonth y (m - 1)
             then Some (MakeDate (MakeDay y (m - 1) d) 0) else None
         | _ \<Rightarrow> None)
      else None)"

text \<open>A document under the cassation date trigger with a negative number of months.\<close>

definition docNegativeMonths :: RetDoc where
  "docNegativeMonths =
     \<lparr>d_id = ''D1'', e_id = None, e_lhold = Some False, d_date = Some ''2024-01-01'',
      d_r_trigger = ''Cassation Date'', d_r_rule = ''R1'', d_r_month = Finite (- 1),
      d_r_deletion = None, d_r_status = Some ''not started''\<rparr>"

text \<open>A document on legal hold whose employee left long ago (scenario D of the specification).\<close>

definition docOnHold :: RetDoc where
  "docOnHold =
     \<lparr>d_id = ''D2'', e_id = Some ''E2'', e_lhold = Some True, d_date = Some ''2020-05-05'',
      d_r_trigger = ''Termination'', d_r_rule = ''R1'', d_r_month = Finite 12,
      d_r_deletion = None, d_r_status = Some ''not started''\<rparr>"

definition empLeft :: EmpMini where
  "empLeft = \<lparr>EmpMini.e_id = ''E2'', e_status = Some ''Terminated'', e_tdate = Some ''2010-01-15''\<rparr>"

text \<open>A document whose trigger is blank.\<close>

definition docBlankTrigger :: RetDoc where
  "docBlankTrigger =
     \<lparr>d_id = ''D3'', e_id = None, e_lhold = None, d_date = Some ''2024-01-01'',
      d_r_trigger = ''  '', d_r_rule = ''R1'', d_r_month = Finite 6,
      d_r_deletion = None, d_r_status = None\<rparr>"

text \<open>
  Scenario B of the specification: an employee terminated on 2023-01-15 and a document
  under the termination trigger with 12 months, seen on 2024-06-01.
\<close>

definition empScenarioB :: EmpMini where
  "empScenarioB =
     \<lparr>EmpMini.e_id = ''E2'', e_status = Some ''Terminated'', e_tdate = Some ''2023-01-15''\<rparr>"

definition docScenarioB :: RetDoc where
  "docScenarioB =
     \<lparr>d_id = ''D4'', e_id = Some ''E2'', e_lhold = Some False, d_date = Some ''2022-02-02'',
      d_r_trigger = ''Termination'', d_r_rule = ''R1'', d_r_month = Finite 12,
      d_r_deletion = None, d_r_status = Some ''not started''\<rparr>"

definition day_2024_06_01 :: int where
  "day_2024_06_01 = MakeDate (MakeDay 2024 5 1) 0"

text \<open>Local midnight of 2024-03-01 at offset 0.\<close>

definition day_2024_03_01 :: int where
  "day_2024_03_01 = MakeDate (MakeDay 2024 2 1) 0"

text \<open>
  Two time zones: UTC, and one that is an hour ahead of UTC until 2024-03-31 01:00 UTC and
  two hours ahead from then on, so that the local times from 02:00 to 03:00 of that day
  do not exist (they are read with the offset before the change).
\<close>

definition zoneUTC :: zone where
  "zoneUTC t isUTC = 0"




text \<open>The rows the two pages start with (\<^verbatim>\<open>useState\<close>), and a page at rest.\<close>

definition rowsRetention :: "OutRow list" where
  \<open>rowsRetention =
     map (\<lambda>l. \<lparr>label = l, value = [], isBlank = (l = [])\<rparr>)
       [''Start time'', [], ''Total number of documents'', [],
        ''Total number of updated retention status'', [],
        ''Number of documents in status "not set"'',
        ''Number of documents in status "not started"'',
        ''Number of documents in status "started"'',
        ''Number of documents in status "legal hold"'',
        ''Number of documents in status "expired"'', [], ''End time'', ''Process duration'']\<close>

definition rowsLegalHold :: "OutRow list" where
  "rowsLegalHold =
     map (\<lambda>l. \<lparr>label = l, value = [], isBlank = (l = [])\<rparr>)
       [''Start time'', [], ''Employees, Legal Hold = no'', ''Employees, Legal Hold = yes'',
        ''Employees, Total'', [], ''Legal Hold activated (Yes) for documents'',
        ''Legal Hold removed (No) for documents'', [], ''Documents, Legal Hold = no'',
        ''Documents, Legal Hold = yes'', ''Documents, Total'', [], ''End time'',
        ''Process duration'']"

definition pageRetention :: Page where
  "pageRetention = \<lparr>busy = False, status = [], rows = rowsRetention\<rparr>"

definition pageLegalHold :: Page where
  "pageLegalHold = \<lparr>busy = False, status = [], rows = rowsLegalHold\<rparr>"

text \<open>
  A store of two employees and four documents: \<open>E1\<close> active and on legal hold, \<open>E2\<close>
  terminated and not on hold; document \<open>D2\<close> is on hold though its employee \<open>E2\<close> no longer
  is, \<open>D3\<close> is not though its employee \<open>E1\<close> is, \<open>D1\<close> has no employee.
\<close>

definition exampleStore :: Store where
  "exampleStore =
     \<lparr>employees =
        [\<lparr>EmpMini.e_id = ''E1'', e_status = Some ''Active'', e_tdate = None,
          Employee.e_lhold = Some True\<rparr>,
         \<lparr>EmpMini.e_id = ''E2'', e_status = Some ''Terminated'', e_tdate = Some ''2023-01-15'',
          Employee.e_lhold = Some False\<rparr>],
      documents =
        [docScenarioB, docOnHold, docBlankTrigger\<lparr>e_id := Some ''E1'', e_lhold := Some False\<rparr>,
         docNegativeMonths]\<rparr>"

text \<open>The run in which the request number \<open>k\<close> fails.\<close>

definition failAt :: "nat \<Rightarrow> nat \<Rightarrow> string option" where
  "failAt k i = (if i = k then Some ''timeout'' else None)"

section \<open>Facts about the calendar\<close>

text \<open>
  The year, month and day of a day number, and the day number of a year, month and day,
  are inverse to each other; \<open>MakeDay\<close> carries months beyond 0 to 11 into the year.
\<close>

lemma div_bounds:
  fixes x c :: int
  assumes "0 < c"
  shows "c * (x div c) \<le> x" and "x < c * (x div c) + c"
  using mult_div_mod_eq [of c x] pos_mod_sign [OF assms, of x] pos_mod_bound [OF assms, of x]
  by linarith+

lemma div_succ:
  fixes x c :: int
  assumes c: "0 < c"
  shows "(x + 1) div c = x div c + (if (x + 1) mod c = 0 then 1 else 0)"
proof -
  define q where "q = x div c"
  define r where "r = x mod c"
  have x: "x = c * q + r" by (simp add: q_def r_def)
  have r: "0 \<le> r" "r < c" using c by (simp_all add: r_def)
  show ?thesis
  proof (cases "r = c - 1")
    case True
    then have e: "x + 1 = c * (q + 1) + 0" by (simp add: x algebra_simps)
    have "(x + 1) div c = q + 1"
      by (rule int_div_pos_eq [OF e]) (use c in simp_all)
    moreover have "(x + 1) mod c = 0"
      by (rule int_mod_pos_eq [OF e]) (use c in simp_all)
    ultimately show ?thesis by (simp add: q_def)
  next
    case False
    with r have r1: "0 \<le> r + 1" "r + 1 < c" by simp_all
    have e: "x + 1 = c * q + (r + 1)" by (simp add: x)
    have "(x + 1) div c = q"
      by (rule int_div_pos_eq [OF e r1])
    moreover have "(x + 1) mod c = r + 1"
      by (rule int_mod_pos_eq [OF e r1])
    ultimately show ?thesis using r by (simp add: q_def)
  qed
qed

lemma mod_shift: "(x + c * k) mod c = (x::int) mod c"
  by simp

lemma DayFromYear_step: "DayFromYear (y + 1) = DayFromYear y + DaysInYear y"
proof -
  have a: "(y - 1968) div 4 = (y - 1969) div 4 + (if y mod 4 = 0 then 1 else 0)"
    using div_succ [of 4 "y - 1969"] mod_shift [of y 4 "- 492"] by simp
  have b: "(y - 1900) div 100 = (y - 1901) div 100 + (if y mod 100 = 0 then 1 else 0)"
    using div_succ [of 100 "y - 1901"] mod_shift [of y 100 "- 19"] by simp
  have c: "(y - 1600) div 400 = (y - 1601) div 400 + (if y mod 400 = 0 then 1 else 0)"
    using div_succ [of 400 "y - 1601"] mod_shift [of y 400 "- 4"] by simp
  have m1: "y mod 4 = 0" if "y mod 100 = 0"
  proof -
    have "(100::int) dvd y" using that by (simp add: dvd_eq_mod_eq_0)
    moreover have "(4::int) dvd 100" by simp
    ultimately have "(4::int) dvd y" using dvd_trans by blast
    then show ?thesis by simp
  qed
  have m2: "y mod 100 = 0" if "y mod 400 = 0"
  proof -
    have "(400::int) dvd y" using that by (simp add: dvd_eq_mod_eq_0)
    moreover have "(100::int) dvd 400" by simp
    ultimately have "(100::int) dvd y" using dvd_trans by blast
    then show ?thesis by simp
  qed
  have l: "DayFromYear (y + 1) =
      365 * (y - 1970) + 365 + (y - 1968) div 4 - (y - 1900) div 100 + (y - 1600) div 400"
    by (simp add: DayFromYear_def)
  show ?thesis
    unfolding l a b c using m1 m2 by (auto simp: DayFromYear_def DaysInYear_def)
qed

lemma DayFromYear_low_aux:
  assumes "146097 * q \<le> 400 * d"
  shows "DayFromYear (1970 + q - 1) \<le> d"
proof -
  define a where "a = q div 4"
  define b where "b = (q + 68) div 100"
  define c where "c = (q + 368) div 400"
  have 1: "4 * a \<le> q" unfolding a_def by (rule div_bounds) simp
  have 2: "q + 68 < 100 * b + 100" unfolding b_def by (rule div_bounds) simp
  have 3: "400 * c \<le> q + 368" unfolding c_def by (rule div_bounds) simp
  have "DayFromYear (1970 + q - 1) = 365 * q - 365 + a - b + c"
    by (simp add: DayFromYear_def a_def b_def c_def add.commute)
  with assms 1 2 3 show ?thesis by linarith
qed

lemma DayFromYear_high_aux:
  assumes "400 * d < 146097 * q + 146097"
  shows "d < DayFromYear (1970 + q + 2)"
proof -
  define a where "a = (q + 3) div 4"
  define b where "b = (q + 71) div 100"
  define c where "c = (q + 371) div 400"
  have 1: "q + 3 < 4 * a + 4" unfolding a_def by (rule div_bounds) simp
  have 2: "100 * b \<le> q + 71" unfolding b_def by (rule div_bounds) simp
  have 3: "q + 371 < 400 * c + 400" unfolding c_def by (rule div_bounds) simp
  have "DayFromYear (1970 + q + 2) = 365 * q + 730 + a - b + c"
    by (simp add: DayFromYear_def a_def b_def c_def add.commute)
  with assms 1 2 3 show ?thesis by linarith
qed

lemma DaysInYear_bounds: "365 \<le> DaysInYear y" "DaysInYear y \<le> 366"
  by (simp_all add: DaysInYear_def)

lemma DayFromYear_less_succ: "DayFromYear y < DayFromYear (y + 1)"
  using DayFromYear_step [of y] DaysInYear_bounds(1) [of y] by linarith

lemma DayFromYear_mono_nat: "DayFromYear y \<le> DayFromYear (y + int k)"
proof (induction k)
  case 0
  show ?case by simp
next
  case (Suc k)
  have "DayFromYear y \<le> DayFromYear (y + int k)" by (rule Suc.IH)
  also have "\<dots> < DayFromYear (y + int k + 1)" by (rule DayFromYear_less_succ)
  also have "y + int k + 1 = y + int (Suc k)" by simp
  finally show ?case by (rule less_imp_le)
qed

lemma DayFromYear_mono: "y \<le> z \<Longrightarrow> DayFromYear y \<le> DayFromYear z"
  using DayFromYear_mono_nat [of y "nat (z - y)"] by simp

lemma DayFromYear_strict_mono: "y < z \<Longrightarrow> DayFromYear y < DayFromYear z"
  using DayFromYear_less_succ [of y] DayFromYear_mono [of "y + 1" z] by linarith

lemma YearFromDay_bounds:
  "DayFromYear (YearFromDay d) \<le> d" "d < DayFromYear (YearFromDay d + 1)"
proof -
  define q where "q = (400 * d) div 146097"
  define y0 where "y0 = 1970 + q"
  have lo: "DayFromYear (y0 - 1) \<le> d"
    unfolding q_def y0_def by (rule DayFromYear_low_aux) (rule div_bounds, simp)
  have hi: "d < DayFromYear (y0 + 1 + 1)"
    using DayFromYear_high_aux [of d q] div_bounds(2) [of 146097 "400 * d"]
    by (simp add: q_def y0_def add.assoc)
  have y: "YearFromDay d =
      (if DayFromYear (y0 + 1) \<le> d then y0 + 1
       else if DayFromYear y0 \<le> d then y0 else y0 - 1)"
    by (simp add: YearFromDay_def Let_def q_def y0_def)
  show "DayFromYear (YearFromDay d) \<le> d"
    using lo by (simp add: y)
  show "d < DayFromYear (YearFromDay d + 1)"
  proof (cases "DayFromYear (y0 + 1) \<le> d")
    case True
    then show ?thesis using hi by (simp add: y)
  next
    case False
    then show ?thesis by (simp add: y)
  qed
qed


lemma InLeapYearOf_cases: "InLeapYearOf y = 0 \<or> InLeapYearOf y = 1"
  by (simp add: InLeapYearOf_def)

lemma DaysInYear_leap: "DaysInYear y = 365 + InLeapYearOf y"
  by (simp add: InLeapYearOf_def DaysInYear_def)

lemma DaysInMonth_bounds: "28 \<le> DaysInMonth y m" "DaysInMonth y m \<le> 31"
  using InLeapYearOf_cases [of y] by (auto simp: DaysInMonth_def)

lemma month_cases:
  "0 \<le> (m::int) \<Longrightarrow> m \<le> 11 \<Longrightarrow>
   m = 0 \<or> m = 1 \<or> m = 2 \<or> m = 3 \<or> m = 4 \<or> m = 5 \<or> m = 6 \<or> m = 7 \<or> m = 8 \<or>
   m = 9 \<or> m = 10 \<or> m = 11"
  by presburger




lemma MonthFromDay_range: "0 \<le> MonthFromDay L d" "MonthFromDay L d \<le> 11"
  by (simp_all add: MonthFromDay_def)


lemma MonthFromDay_within:
  assumes "0 \<le> d" "d < DaysInYear y"
  shows "MonthStart (InLeapYearOf y) (MonthFromDay (InLeapYearOf y) d) \<le> d"
    and "d < MonthStart (InLeapYearOf y) (MonthFromDay (InLeapYearOf y) d)
              + DaysInMonth y (MonthFromDay (InLeapYearOf y) d)"
proof -
  define m where "m = MonthFromDay (InLeapYearOf y) d"
  have "0 \<le> m" "m \<le> 11" by (simp_all add: m_def MonthFromDay_range)
  then have "MonthStart (InLeapYearOf y) m \<le> d \<and> d < MonthStart (InLeapYearOf y) m + DaysInMonth y m"
    using month_cases [of m] InLeapYearOf_cases [of y] assms m_def
    by (elim disjE; simp add: MonthStart_def DaysInMonth_def MonthFromDay_def DaysInYear_leap split: if_splits)
  then show "MonthStart (InLeapYearOf y) (MonthFromDay (InLeapYearOf y) d) \<le> d"
    and "d < MonthStart (InLeapYearOf y) (MonthFromDay (InLeapYearOf y) d)
              + DaysInMonth y (MonthFromDay (InLeapYearOf y) d)"
    by (simp_all add: m_def)
qed




lemma MakeDate_Day: "MakeDate (Day t) (TimeWithinDay t) = t"
  by (simp add: MakeDate_def Day_def TimeWithinDay_def)

lemma DayWithinYear_range: "0 \<le> DayWithinYear t" "DayWithinYear t < DaysInYear (YearFromTime t)"
  using YearFromDay_bounds [of "Day t"] DayFromYear_step [of "YearFromTime t"]
  by (simp_all add: DayWithinYear_def YearFromTime_def)

lemma MonthFromTime_range: "0 \<le> MonthFromTime t" "MonthFromTime t \<le> 11"
  by (simp_all add: MonthFromTime_def MonthFromDay_range)

lemma DateFromTime_range:
  "1 \<le> DateFromTime t" "DateFromTime t \<le> DaysInMonth (YearFromTime t) (MonthFromTime t)"
  using MonthFromDay_within [OF DayWithinYear_range, of t]
  by (simp_all add: DateFromTime_def MonthFromTime_def InLeapYear_def)








subsection \<open>Time zones and the range of time values\<close>









lemma numLess_simps [simp]:
  "numLess None b = False" "numLess a None = False" "numLess (Some x) (Some y) = (x < y)"
  by (simp_all add: numLess_def split: option.splits)


subsection \<open>Local midnights\<close>



lemma dateOnlyTs_None [simp]: "dateOnlyTs tz None = None"
  by (simp add: dateOnlyTs_def newDateYMD_def getFullYear_def)








text \<open>Two time zones: UTC, and central European time around the change of 31 March 2024.\<close>

lemma wellBehaved_zoneUTC: "wellBehaved zoneUTC"
  by (simp add: wellBehaved_def zoneUTC_def LocalTime_def UTC_def msPerDay_def)



section \<open>The text of a date\<close>

lemma showNat_one: "n < 10 \<Longrightarrow> showNat n = [''0123456789'' ! n]"
  by (subst showNat.simps) simp

lemma showNat_more: "10 \<le> n \<Longrightarrow> showNat n = showNat (n div 10) @ [''0123456789'' ! (n mod 10)]"
  by (subst showNat.simps) simp

lemma digit_nat: "digit (int n) = ''0123456789'' ! (n mod 10)"
proof -
  have "nat (int n mod 10) = n mod 10"
    by (simp add: nat_mod_distrib)
  then show ?thesis by (simp add: digit_def)
qed

lemma digit_small: "n < 10 \<Longrightarrow> ''0123456789'' ! n = digit (int n)"
  by (simp add: digit_nat)

lemma int_div10: "int (n div 10) = int n div 10" "int (n div 100) = int n div 100"
  "int (n div 1000) = int n div 1000"
  by (simp_all add: zdiv_int)

lemma showNat_two:
  assumes "10 \<le> n" "n < 100"
  shows "showNat n = [digit (int n div 10), digit (int n)]"
proof -
  define a where "a = n div 10"
  have r: "a < 10" using assms by (simp add: a_def)
  have "showNat n = showNat a @ [digit (int n)]"
    using showNat_more [OF assms(1)] by (simp add: a_def digit_nat)
  also have "showNat a = [digit (int a)]"
    using showNat_one [OF r] r by (simp add: digit_nat)
  finally show ?thesis by (simp add: a_def int_div10)
qed



lemma padStart_two: "0 \<le> k \<Longrightarrow> k \<le> 99 \<Longrightarrow> padStart 2 CHR ''0'' (String k) = twoDigits k"
proof -
  assume k: "0 \<le> k" "k \<le> 99"
  show ?thesis
  proof (cases "k < 10")
    case True
    then have "k div 10 = 0" using k by simp
    then have z: "digit (k div 10) = CHR ''0''" by (simp add: digit_def)
    have "showNat (nat k) = [digit k]"
      using True k showNat_one [of "nat k"] by (simp add: digit_small)
    then show ?thesis using k by (simp add: String_def padStart_def twoDigits_def z)
  next
    case False
    then have "showNat (nat k) = [digit (k div 10), digit k]"
      using k showNat_two [of "nat k"] by simp
    then show ?thesis using k by (simp add: String_def padStart_def twoDigits_def)
  qed
qed

lemma toISODate_None: "toISODate tz None = ''NaN-NaN-NaN''"
  by (simp add: toISODate_def getFullYear_def getMonth_def getDate_def StringNaN_def padStart_def)

lemma toISODate_Some:
  "toISODate tz (Some t) =
     String (YearFromTime (LocalTime tz t)) @ ''-'' @
     twoDigits (MonthFromTime (LocalTime tz t) + 1) @ ''-'' @
     twoDigits (DateFromTime (LocalTime tz t))"
proof -
  define lt where "lt = LocalTime tz t"
  have m: "0 \<le> MonthFromTime lt + 1" "MonthFromTime lt + 1 \<le> 99"
    using MonthFromTime_range [of lt] by simp_all
  have d: "0 \<le> DateFromTime lt" "DateFromTime lt \<le> 99"
    using DateFromTime_range [of lt] DaysInMonth_bounds(2) [of "YearFromTime lt" "MonthFromTime lt"]
    by simp_all
  show ?thesis
    using padStart_two [OF m] padStart_two [OF d]
    by (simp add: toISODate_def getFullYear_def getMonth_def getDate_def StringNaN_def Let_def
        lt_def)
qed


section \<open>The target pair: legal hold, fallbacks and the status values\<close>

lemma targetPair_cases:
  "targetPair tz newDate today empMap d = (''legal hold'', None) \<or>
   targetPair tz newDate today empMap d = (''not started'', None) \<or>
   (\<exists>s base. newDate s = Some base \<and> targetPair tz newDate today empMap d =
      (''expired'', Some (toISODate tz (addMonths tz (Some base) (toInt (d_r_month d)))))) \<or>
   (\<exists>s base. newDate s = Some base \<and> targetPair tz newDate today empMap d =
      (''started'', Some (toISODate tz (addMonths tz (Some base) (toInt (d_r_month d))))))"
  unfolding targetPair_def Let_def by (auto split: option.splits)

text \<open>
  C1: a document whose \<^verbatim>\<open>e_lhold\<close> is true gets status "legal hold" and deletion null,
  whatever its trigger, rule, months, dates and employee are: the test comes first and
  nothing else is read.
\<close>

theorem C1_legal_hold_first:
  "e_lhold d = Some True \<Longrightarrow>
   targetPair tz newDate today empMap d = (''legal hold'', None)"
  by (simp add: targetPair_def)

theorem C1_legal_hold_first_witness:
  "e_lhold docOnHold = Some True \<and>
   targetPair zoneUTC isoDate day_2024_03_01 [''E2'' \<mapsto> empLeft] docOnHold = (''legal hold'', None)"
  using C1_legal_hold_first [of docOnHold zoneUTC isoDate day_2024_03_01 "[''E2'' \<mapsto> empLeft]"]
  by (simp add: docOnHold_def)

text \<open>
  C4, as stated, fails: a finite negative number of months passes the test of the
  code, which is \<^verbatim>\<open>Number.isFinite\<close> alone. Here the cassation date 2024-01-01 with
  \<open>-1\<close> months gives the deletion date 2023-12-01 and the status "expired".
\<close>

theorem C4_negative_months_counterexample:
  "e_lhold docNegativeMonths \<noteq> Some True \<and>
   \<not> (isFinite (d_r_month docNegativeMonths) \<and> 0 \<le> toInt (d_r_month docNegativeMonths)) \<and>
   targetPair zoneUTC isoDate day_2024_03_01 Map.empty docNegativeMonths
     = (''expired'', Some ''2023-12-01'')"
  by code_simp

text \<open>
  C4, amended: a document not on legal hold whose trimmed trigger is empty, or whose
  months value is not finite, gets status "not started" and deletion null.
\<close>

theorem C4_fallback_not_started:
  "e_lhold d \<noteq> Some True \<Longrightarrow>
   toLowerCase (norm (Some (d_r_trigger d))) = [] \<or> \<not> isFinite (d_r_month d) \<Longrightarrow>
   targetPair tz newDate today empMap d = (''not started'', None)"
  by (auto simp: targetPair_def Let_def)

theorem C4_fallback_not_started_witness:
  "e_lhold docBlankTrigger \<noteq> Some True \<and>
   (toLowerCase (norm (Some (d_r_trigger docBlankTrigger))) = [] \<or>
    \<not> isFinite (d_r_month docBlankTrigger)) \<and>
   targetPair zoneUTC isoDate day_2024_03_01 Map.empty docBlankTrigger = (''not started'', None)"
proof -
  have h1: "e_lhold docBlankTrigger \<noteq> Some True"
    by (simp add: docBlankTrigger_def)
  have "toLowerCase (norm (Some (d_r_trigger docBlankTrigger))) = []"
    by code_simp
  then have h2: "toLowerCase (norm (Some (d_r_trigger docBlankTrigger))) = [] \<or>
      \<not> isFinite (d_r_month docBlankTrigger)"
    by simp
  show ?thesis
    using h1 h2 C4_fallback_not_started [OF h1 h2, of zoneUTC isoDate day_2024_03_01 Map.empty]
    by simp
qed

text \<open>
  C5: the status computed for a document is one of "not started", "started",
  "legal hold" and "expired", and so never "not set", on every branch.
\<close>

theorem C5_status_values:
  "fst (targetPair tz newDate today empMap d)
     \<in> {''not started'', ''started'', ''legal hold'', ''expired''} \<and>
   fst (targetPair tz newDate today empMap d) \<noteq> ''not set''"
  using targetPair_cases [of tz newDate today empMap d] by auto

section \<open>Calendar months\<close>









section \<open>Expired or started\<close>



section \<open>The deletion date\<close>




section \<open>Writes only where something changed\<close>

lemma processDocs_updates_acc:
  "snd (foldl (processDoc tz newDate today empMap) acc docs) =
   snd acc @ map (\<lambda>d. (d_id d, targetPair tz newDate today empMap d))
     (filter (\<lambda>d. d_id d \<noteq> [] \<and> changed d (targetPair tz newDate today empMap d)) docs)"
proof (induction docs arbitrary: acc)
  case Nil
  show ?case by simp
next
  case (Cons d ds)
  show ?case
    by (simp add: Cons.IH) (simp add: processDoc_def Let_def)
qed

lemma processDocs_updates:
  "snd (processDocs tz newDate today empMap docs) =
   map (\<lambda>d. (d_id d, targetPair tz newDate today empMap d))
     (filter (\<lambda>d. d_id d \<noteq> [] \<and> changed d (targetPair tz newDate today empMap d)) docs)"
  by (simp add: processDocs_def processDocs_updates_acc)

lemma trim_unchanged:
  assumes "s \<noteq> []" "\<not> isWhiteSpace (hd s)" "\<not> isWhiteSpace (last s)"
  shows "trim s = s"
proof -
  have a: "dropWhile isWhiteSpace s = s"
    using assms(1,2) by (cases s) simp_all
  have b: "dropWhile isWhiteSpace (rev s) = rev s"
    using assms(1,3) by (cases "rev s") (simp_all add: last_rev [symmetric] hd_rev)
  show ?thesis by (simp add: trim_def a b)
qed

lemma digit_nth: "k < 10 \<Longrightarrow> ''0123456789'' ! k \<in> set ''0123456789''"
  by (rule nth_mem) simp

lemma showNat_digits: "showNat n \<noteq> [] \<and> set (showNat n) \<subseteq> set ''0123456789''"
proof (induction n rule: showNat.induct)
  case (1 n)
  show ?case
  proof (cases "n < 10")
    case True
    have "showNat n = [''0123456789'' ! n]"
      using True by (subst showNat.simps) simp
    with digit_nth [OF True] show ?thesis by simp
  next
    case False
    have e: "showNat n = showNat (n div 10) @ [''0123456789'' ! (n mod 10)]"
      using False by (subst showNat.simps) simp
    have "n mod 10 < 10" by simp
    from digit_nth [OF this] 1 [OF False] show ?thesis
      unfolding e by simp
  qed
qed

lemma digit_not_space: "c \<in> set ''0123456789'' \<Longrightarrow> \<not> isWhiteSpace c"
  by (auto simp: isWhiteSpace_def)

lemma String_ends:
  "String n \<noteq> [] \<and> \<not> isWhiteSpace (hd (String n)) \<and> \<not> isWhiteSpace (last (String n))"
proof -
  have minus: "\<not> isWhiteSpace CHR ''-''" by (simp add: isWhiteSpace_def)
  have h: "\<not> isWhiteSpace (hd (showNat k))" "\<not> isWhiteSpace (last (showNat k))" for k
    using showNat_digits [of k] digit_not_space hd_in_set [of "showNat k"] last_in_set [of "showNat k"]
    by blast+
  show ?thesis
    using showNat_digits [of "nat n"] showNat_digits [of "nat (- n)"] minus h
    by (simp add: String_def)
qed

lemma digit_char: "digit n \<in> set ''0123456789''"
  unfolding digit_def by (rule nth_mem) simp

lemma toISODate_norm: "norm (Some (toISODate tz d)) = toISODate tz d"
proof (cases d)
  case None
  have "norm (Some ''NaN-NaN-NaN'') = ''NaN-NaN-NaN''" by code_simp
  then show ?thesis by (simp add: None toISODate_None)
next
  case (Some t)
  define s where "s = toISODate tz d"
  define a where "a = String (YearFromTime (LocalTime tz t))"
  have a: "a \<noteq> []" "\<not> isWhiteSpace (hd a)"
    using String_ends [of "YearFromTime (LocalTime tz t)"] by (simp_all add: a_def)
  have "\<exists>m. s = a @ m @ [digit (DateFromTime (LocalTime tz t))]"
    by (simp add: s_def Some toISODate_Some twoDigits_def a_def)
  then obtain m where s: "s = a @ m @ [digit (DateFromTime (LocalTime tz t))]" ..
  have "s \<noteq> []" "hd s = hd a" "last s = digit (DateFromTime (LocalTime tz t))"
    using a(1) by (simp_all add: s)
  then have "trim s = s"
    using a digit_not_space [OF digit_char] by (intro trim_unchanged) simp_all
  then show ?thesis by (simp add: norm_def s_def)
qed

lemma status_norm:
  "norm (Some ''legal hold'') = ''legal hold''" "norm (Some ''not started'') = ''not started''"
  "norm (Some ''expired'') = ''expired''" "norm (Some ''started'') = ''started''"
  "norm None = []"
  by code_simp+

lemma targetPair_norm:
  "norm (Some (fst (targetPair tz newDate today empMap d))) = fst (targetPair tz newDate today empMap d)"
  "norm (snd (targetPair tz newDate today empMap d)) =
     (case snd (targetPair tz newDate today empMap d) of None \<Rightarrow> [] | Some x \<Rightarrow> x)"
  using targetPair_cases [of tz newDate today empMap d]
  by (auto simp: status_norm toISODate_norm)

lemma same_day_fields:
  assumes "Day (LocalTime tz a) = Day (LocalTime tz b)"
  shows "getFullYear tz (Some a) = getFullYear tz (Some b)"
    "getMonth tz (Some a) = getMonth tz (Some b)"
    "getDate tz (Some a) = getDate tz (Some b)"
proof -
  have y: "YearFromTime (LocalTime tz a) = YearFromTime (LocalTime tz b)"
    by (simp add: YearFromTime_def assms)
  have w: "DayWithinYear (LocalTime tz a) = DayWithinYear (LocalTime tz b)"
    by (simp add: DayWithinYear_def assms y)
  have m: "MonthFromTime (LocalTime tz a) = MonthFromTime (LocalTime tz b)"
    by (simp add: MonthFromTime_def InLeapYear_def y w)
  show "getFullYear tz (Some a) = getFullYear tz (Some b)" by (simp add: getFullYear_def y)
  show "getMonth tz (Some a) = getMonth tz (Some b)" by (simp add: getMonth_def m)
  show "getDate tz (Some a) = getDate tz (Some b)"
    by (simp add: getDate_def DateFromTime_def InLeapYear_def y w m)
qed

lemma same_day_targetPair:
  assumes "Day (LocalTime tz a) = Day (LocalTime tz b)"
  shows "targetPair tz newDate a empMap d = targetPair tz newDate b empMap d"
proof -
  have h: "isExpiredPerSpec tz del (Some a) = isExpiredPerSpec tz del (Some b)" for del
    by (simp add: isExpiredPerSpec_def dateOnlyTs_def same_day_fields [OF assms])
  show ?thesis unfolding targetPair_def Let_def h by (rule refl)
qed

lemma targetPair_ignores_outputs:
  "targetPair tz newDate today empMap (d\<lparr>d_r_status := a, d_r_deletion := b\<rparr>) =
   targetPair tz newDate today empMap d"
  by (simp add: targetPair_def Let_def split: option.splits)

lemma find_unique_key:
  assumes "distinct (map k xs)" "d \<in> set xs"
  shows "find (\<lambda>x. k x = k d) (filter P xs) = (if P d then Some d else None)"
  using assms
proof (induction xs)
  case Nil
  then show ?case by simp
next
  case (Cons x xs)
  show ?case
  proof (cases "x = d")
    case True
    have "k y \<noteq> k d" if "y \<in> set xs" for y
      using Cons.prems(1) that True by (auto simp: image_iff)
    then have "find (\<lambda>x. k x = k d) (filter P xs) = None"
      by (simp add: find_None_iff)
    with True show ?thesis by simp
  next
    case False
    with Cons.prems have d: "d \<in> set xs" and kx: "k x \<noteq> k d"
      by (auto simp: image_iff)
    with Cons show ?thesis by simp
  qed
qed

lemma find_mapped:
  "find Q (map g xs) = map_option g (find (\<lambda>x. Q (g x)) xs)"
  by (induction xs) simp_all

text \<open>The last update that names a row decides it.\<close>

lemma updates_fold:
  "foldl (\<lambda>ds u. updateRetention u ds) docs ups =
   map (\<lambda>d. case find (\<lambda>u. fst u = d_id d) (rev ups) of
              None \<Rightarrow> d
            | Some u \<Rightarrow> d\<lparr>d_r_status := Some (fst (snd u)), d_r_deletion := snd (snd u)\<rparr>) docs"
proof (induction ups rule: rev_induct)
  case Nil
  show ?case by simp
next
  case (snoc u ups)
  have "foldl (\<lambda>ds u. updateRetention u ds) docs (ups @ [u]) =
      updateRetention u (foldl (\<lambda>ds u. updateRetention u ds) docs ups)"
    by simp
  also have "\<dots> = updateRetention u
      (map (\<lambda>d. case find (\<lambda>u. fst u = d_id d) (rev ups) of
              None \<Rightarrow> d
            | Some u \<Rightarrow> d\<lparr>d_r_status := Some (fst (snd u)), d_r_deletion := snd (snd u)\<rparr>) docs)"
    by (simp only: snoc.IH)
  also have "\<dots> = map (\<lambda>d. case find (\<lambda>u. fst u = d_id d) (rev (ups @ [u])) of
              None \<Rightarrow> d
            | Some u \<Rightarrow> d\<lparr>d_r_status := Some (fst (snd u)), d_r_deletion := snd (snd u)\<rparr>) docs"
    by (auto simp: updateRetention_def split: option.splits)
  finally show ?case .
qed

lemma store_after_run:
  assumes "distinct (map d_id docs)"
  shows "foldl (\<lambda>ds u. updateRetention u ds) docs (snd (processDocs tz newDate today empMap docs)) =
    map (\<lambda>d. if d_id d \<noteq> [] \<and> changed d (targetPair tz newDate today empMap d)
             then d\<lparr>d_r_status := Some (fst (targetPair tz newDate today empMap d)),
                    d_r_deletion := snd (targetPair tz newDate today empMap d)\<rparr>
             else d) docs"
proof -
  define P where "P = (\<lambda>d. d_id d \<noteq> [] \<and> changed d (targetPair tz newDate today empMap d))"
  define g where "g = (\<lambda>d. (d_id d, targetPair tz newDate today empMap d))"
  have ups: "rev (snd (processDocs tz newDate today empMap docs)) = map g (filter P (rev docs))"
    by (simp add: processDocs_updates P_def g_def rev_map rev_filter)
  have f: "find (\<lambda>u. fst u = d_id d) (map g (filter P (rev docs))) = (if P d then Some (g d) else None)"
    if "d \<in> set docs" for d
  proof -
    have "distinct (map d_id (rev docs))" using assms by (simp add: rev_map [symmetric])
    from find_unique_key [OF this, of d P] that
    have "find (\<lambda>x. d_id x = d_id d) (filter P (rev docs)) = (if P d then Some d else None)" by simp
    then show ?thesis by (simp add: find_mapped g_def)
  qed
  show ?thesis
    unfolding updates_fold ups
    by (rule map_cong) (simp_all add: f, simp_all add: P_def g_def)
qed

lemma second_run_no_updates:
  assumes "distinct (map d_id docs)" and "Day (LocalTime tz today') = Day (LocalTime tz today)"
  shows "snd (processDocs tz newDate today' empMap
           (foldl (\<lambda>ds u. updateRetention u ds) docs
              (snd (processDocs tz newDate today empMap docs)))) = []"
proof -
  have "\<not> changed (d\<lparr>d_r_status := Some (fst (targetPair tz newDate today empMap d)),
                    d_r_deletion := snd (targetPair tz newDate today empMap d)\<rparr>)
           (targetPair tz newDate today empMap d)" for d
    by (simp add: changed_def Let_def targetPair_norm)
  then show ?thesis
    unfolding store_after_run [OF assms(1)]
    by (auto simp: processDocs_updates filter_empty_conv
        same_day_targetPair [OF assms(2)] targetPair_ignores_outputs)
qed

section \<open>The legal hold batch: which documents change\<close>

lemma concat_chunk: "0 < n \<Longrightarrow> concat (chunk xs n) = xs"
proof (induction xs n rule: chunk.induct)
  case (1 arr sz)
  show ?case
  proof (cases "arr = []")
    case True
    then show ?thesis by (subst chunk.simps) simp
  next
    case False
    with 1 show ?thesis by (subst chunk.simps) simp
  qed
qed

lemma updateHold_append:
  "updateHold b ys (updateHold b xs docs) = updateHold b (xs @ ys) docs"
  by (auto simp: updateHold_def)

lemma updateHold_nil: "updateHold b [] docs = docs"
  by (simp add: updateHold_def)

lemma holdChunks_no_faults:
  "holdChunks (\<lambda>_. None) b parts k docs cnt =
     (None, updateHold b (concat parts) docs, k + length (filter (\<lambda>ids. ids \<noteq> []) parts),
      cnt + length (concat parts))"
proof (induction parts arbitrary: k docs cnt)
  case Nil
  show ?case by (simp add: updateHold_nil)
next
  case (Cons ids rest)
  show ?case
    by (simp add: Cons.IH updateHold_append updateHold_nil)
qed

lemma hold_sets_member:
  "i \<in> set (activateDocIds (docsWithHold False docs) empYesRows) \<longleftrightarrow>
     (\<exists>d \<in> set docs. d_id d = i \<and> e_lhold d = Some False \<and>
        (\<exists>emp \<in> set empYesRows. e_id d = Some (EmpMini.e_id emp) \<and> EmpMini.e_id emp \<noteq> []))"
  "i \<in> set (removeDocIds (docsWithHold True docs) empNoRows) \<longleftrightarrow>
     (\<exists>d \<in> set docs. d_id d = i \<and> e_lhold d = Some True \<and>
        (\<exists>emp \<in> set empNoRows. e_id d = Some (EmpMini.e_id emp) \<and> EmpMini.e_id emp \<noteq> []))"
  by (auto simp: activateDocIds_def removeDocIds_def docsWithHold_def truthy_def Let_def
      split: option.splits) blast+

lemma key_unique:
  "distinct (map k xs) \<Longrightarrow> x \<in> set xs \<Longrightarrow> y \<in> set xs \<Longrightarrow> k x = k y \<Longrightarrow> x = y"
  by (meson distinct_map inj_onD)

lemma hold_sets_disjoint:
  assumes "distinct (map d_id docs)"
  shows "set (activateDocIds (docsWithHold False docs) empYesRows) \<inter>
         set (removeDocIds (docsWithHold True docs) empNoRows) = {}"
proof -
  have False if a: "i \<in> set (activateDocIds (docsWithHold False docs) empYesRows)"
    and r: "i \<in> set (removeDocIds (docsWithHold True docs) empNoRows)" for i
  proof -
    from a obtain d1 where d1: "d1 \<in> set docs" "d_id d1 = i" "e_lhold d1 = Some False"
      unfolding hold_sets_member by blast
    from r obtain d2 where d2: "d2 \<in> set docs" "d_id d2 = i" "e_lhold d2 = Some True"
      unfolding hold_sets_member by blast
    have "d1 = d2" using key_unique [OF assms d1(1) d2(1)] d1(2) d2(2) by simp
    with d1(3) d2(3) show False by simp
  qed
  then show ?thesis by blast
qed

text \<open>The rows of the page under \<open>setValue\<close>.\<close>

lemma shown_rows_same:
  "map value (filter (\<lambda>r. label r = l \<and> \<not> isBlank r)
      (map (\<lambda>r. if label r = l then r\<lparr>value := v\<rparr> else r) rs)) =
   replicate (length (filter (\<lambda>r. label r = l \<and> \<not> isBlank r) rs)) v"
  by (induction rs) auto

lemma shown_rows_other:
  "l \<noteq> l' \<Longrightarrow>
   map value (filter (\<lambda>r. label r = l \<and> \<not> isBlank r)
      (map (\<lambda>r. if label r = l' then r\<lparr>value := v\<rparr> else r) rs)) =
   map value (filter (\<lambda>r. label r = l \<and> \<not> isBlank r) rs)"
  by (induction rs) auto

lemma shown_rows_clear:
  "map value (filter (\<lambda>r. label r = l \<and> \<not> isBlank r)
      (map (\<lambda>r. if isBlank r then r else r\<lparr>value := []\<rparr>) rs)) =
   replicate (length (filter (\<lambda>r. label r = l \<and> \<not> isBlank r) rs)) []"
  by (induction rs) auto

lemma shown_setValue_same:
  "shown l (setValue l v pg) = replicate (length (shown l pg)) v"
  by (simp add: shown_def setValue_def shown_rows_same)

lemma shown_setValue_other:
  "l \<noteq> l' \<Longrightarrow> shown l (setValue l' v pg) = shown l pg"
  by (simp add: shown_def setValue_def shown_rows_other)

lemma shown_clearAllValues:
  "shown l (clearAllValues pg) = replicate (length (shown l pg)) []"
  by (simp add: shown_def clearAllValues_def shown_rows_clear)

lemma shown_status_busy:
  "shown l (pg\<lparr>status := s\<rparr>) = shown l pg" "shown l (pg\<lparr>busy := b\<rparr>) = shown l pg"
  "shown l (pg\<lparr>status := s, busy := b\<rparr>) = shown l pg"
  by (simp_all add: shown_def)

lemma status_setValue: "status (setValue l v pg) = status pg" "busy (setValue l v pg) = busy pg"
  by (simp_all add: setValue_def)

lemma tryLegalHold_no_faults:
  fixes st :: Store
  defines "act \<equiv> activateDocIds (docsWithHold False (documents st)) (empsWithHold True (employees st))"
  defines "rem \<equiv> removeDocIds (docsWithHold True (documents st)) (empsWithHold False (employees st))"
  shows "fst (tryLegalHold tz (\<lambda>_. None) startedAt endedAt st pg) = None"
    and "documents (fst (snd (tryLegalHold tz (\<lambda>_. None) startedAt endedAt st pg))) =
           updateHold False rem (updateHold True act (documents st))"
    and "shown ''Legal Hold activated (Yes) for documents''
           (snd (snd (tryLegalHold tz (\<lambda>_. None) startedAt endedAt st pg))) =
         replicate (length (shown ''Legal Hold activated (Yes) for documents'' pg))
           (String (int (length act)))"
    and "shown ''Legal Hold removed (No) for documents''
           (snd (snd (tryLegalHold tz (\<lambda>_. None) startedAt endedAt st pg))) =
         replicate (length (shown ''Legal Hold removed (No) for documents'' pg))
           (String (int (length rem)))"
  by (simp_all add: tryLegalHold_def Let_def holdChunks_no_faults concat_chunk act_def rem_def
      shown_setValue_same shown_setValue_other)

lemma activate_exactly:
  "activateDocIds (docsWithHold False docs) (empsWithHold True emps) =
   map d_id (filter (\<lambda>d. e_lhold d = Some False \<and>
       (\<exists>emp \<in> set emps. e_id d = Some (EmpMini.e_id emp) \<and> EmpMini.e_id emp \<noteq> [] \<and>
          Employee.e_lhold emp = Some True)) docs)"
proof -
  have "filter (\<lambda>d. truthy (e_id d) \<and> the (e_id d) \<in> set (map EmpMini.e_id (empsWithHold True emps)))
          (docsWithHold False docs) =
        filter (\<lambda>d. e_lhold d = Some False \<and>
       (\<exists>emp \<in> set emps. e_id d = Some (EmpMini.e_id emp) \<and> EmpMini.e_id emp \<noteq> [] \<and>
          Employee.e_lhold emp = Some True)) docs"
    unfolding docsWithHold_def filter_filter
    by (rule filter_cong) (auto simp: empsWithHold_def truthy_def split: option.splits)
  then show ?thesis by (simp add: activateDocIds_def Let_def)
qed

lemma remove_exactly:
  "removeDocIds (docsWithHold True docs) (empsWithHold False emps) =
   map d_id (filter (\<lambda>d. e_lhold d = Some True \<and>
       (\<exists>emp \<in> set emps. e_id d = Some (EmpMini.e_id emp) \<and> EmpMini.e_id emp \<noteq> [] \<and>
          Employee.e_lhold emp = Some False)) docs)"
proof -
  have "filter (\<lambda>d. truthy (e_id d) \<and> the (e_id d) \<in> set (map EmpMini.e_id (empsWithHold False emps)))
          (docsWithHold True docs) =
        filter (\<lambda>d. e_lhold d = Some True \<and>
       (\<exists>emp \<in> set emps. e_id d = Some (EmpMini.e_id emp) \<and> EmpMini.e_id emp \<noteq> [] \<and>
          Employee.e_lhold emp = Some False)) docs"
    unfolding docsWithHold_def filter_filter
    by (rule filter_cong) (auto simp: empsWithHold_def truthy_def split: option.splits)
  then show ?thesis by (simp add: removeDocIds_def Let_def)
qed

lemma runBatch_legalHold_no_faults:
  "fst (runBatch_legalHold tz (\<lambda>_. None) startedAt endedAt st pg) =
     fst (snd (tryLegalHold tz (\<lambda>_. None) startedAt endedAt st
       (setValue ''Start time'' (fmtTimeWithMs tz (Some startedAt))
          (clearAllValues (pg\<lparr>busy := True, status := []\<rparr>)))))"
  "snd (runBatch_legalHold tz (\<lambda>_. None) startedAt endedAt st pg) =
     (snd (snd (tryLegalHold tz (\<lambda>_. None) startedAt endedAt st
       (setValue ''Start time'' (fmtTimeWithMs tz (Some startedAt))
          (clearAllValues (pg\<lparr>busy := True, status := []\<rparr>))))))
     \<lparr>status := ''Successful: Legal Hold batch finished.'', busy := False\<rparr>"
  using tryLegalHold_no_faults(1) [of tz startedAt endedAt st
      "setValue ''Start time'' (fmtTimeWithMs tz (Some startedAt))
          (clearAllValues (pg\<lparr>busy := True, status := []\<rparr>))"]
  by (auto simp: runBatch_legalHold_def Let_def split: prod.splits option.splits)

text \<open>
  C7: in a run of the legal hold batch without error, \<^verbatim>\<open>activateDocIds\<close> are exactly the
  documents whose own \<^verbatim>\<open>e_lhold\<close> is false and whose \<^verbatim>\<open>e_id\<close> (not null, not empty) is
  that of an employee whose \<^verbatim>\<open>e_lhold\<close> is true, and \<^verbatim>\<open>removeDocIds\<close> exactly those whose
  own flag is true and whose employee's is false; a document whose \<^verbatim>\<open>e_id\<close> is that of no
  employee is in neither. The run sets the flag of every document of the first set and
  clears that of every document of the second, leaves the others as they are, and the row
  "Legal Hold activated (Yes) for documents" shows the size of the first set. The documents
  are told apart by their \<^verbatim>\<open>d_id\<close>, the key the writes select by.
\<close>

theorem C7_legal_hold_propagation:
  fixes st :: Store and pg :: Page and tz :: zone and startedAt endedAt :: int
  defines "act \<equiv> activateDocIds (docsWithHold False (documents st)) (empsWithHold True (employees st))"
  defines "rem \<equiv> removeDocIds (docsWithHold True (documents st)) (empsWithHold False (employees st))"
  defines "res \<equiv> runBatch_legalHold tz (\<lambda>_. None) startedAt endedAt st pg"
  assumes key: "distinct (map d_id (documents st))"
  shows "act = map d_id (filter (\<lambda>d. e_lhold d = Some False \<and>
             (\<exists>emp \<in> set (employees st). e_id d = Some (EmpMini.e_id emp) \<and>
                EmpMini.e_id emp \<noteq> [] \<and> Employee.e_lhold emp = Some True)) (documents st)) \<and>
    rem = map d_id (filter (\<lambda>d. e_lhold d = Some True \<and>
             (\<exists>emp \<in> set (employees st). e_id d = Some (EmpMini.e_id emp) \<and>
                EmpMini.e_id emp \<noteq> [] \<and> Employee.e_lhold emp = Some False)) (documents st)) \<and>
    (\<forall>d \<in> set (documents st).
        (\<forall>emp \<in> set (employees st). e_id d \<noteq> Some (EmpMini.e_id emp)) \<longrightarrow>
        d_id d \<notin> set act \<and> d_id d \<notin> set rem) \<and>
    documents (fst res) =
      map (\<lambda>d. if d_id d \<in> set act then d\<lparr>e_lhold := Some True\<rparr>
               else if d_id d \<in> set rem then d\<lparr>e_lhold := Some False\<rparr> else d) (documents st) \<and>
    shown ''Legal Hold activated (Yes) for documents'' (snd res) =
      replicate (length (shown ''Legal Hold activated (Yes) for documents'' pg))
        (String (int (length act)))"
proof (intro conjI)
  show "act = map d_id (filter (\<lambda>d. e_lhold d = Some False \<and>
             (\<exists>emp \<in> set (employees st). e_id d = Some (EmpMini.e_id emp) \<and>
                EmpMini.e_id emp \<noteq> [] \<and> Employee.e_lhold emp = Some True)) (documents st))"
    unfolding act_def by (rule activate_exactly)
  show "rem = map d_id (filter (\<lambda>d. e_lhold d = Some True \<and>
             (\<exists>emp \<in> set (employees st). e_id d = Some (EmpMini.e_id emp) \<and>
                EmpMini.e_id emp \<noteq> [] \<and> Employee.e_lhold emp = Some False)) (documents st))"
    unfolding rem_def by (rule remove_exactly)
  show "\<forall>d \<in> set (documents st).
        (\<forall>emp \<in> set (employees st). e_id d \<noteq> Some (EmpMini.e_id emp)) \<longrightarrow>
        d_id d \<notin> set act \<and> d_id d \<notin> set rem"
  proof (intro ballI impI)
    fix d
    assume d: "d \<in> set (documents st)"
      and none: "\<forall>emp \<in> set (employees st). e_id d \<noteq> Some (EmpMini.e_id emp)"
    have "d' = d" if "d' \<in> set (documents st)" "d_id d' = d_id d" for d'
      using key_unique [OF key that(1) d that(2)] .
    with none show "d_id d \<notin> set act \<and> d_id d \<notin> set rem"
      unfolding act_def rem_def hold_sets_member
      by (auto simp: empsWithHold_def)
  qed
  have dis: "set act \<inter> set rem = {}"
    unfolding act_def rem_def by (rule hold_sets_disjoint [OF key])
  have "documents (fst res) = updateHold False rem (updateHold True act (documents st))"
    unfolding res_def runBatch_legalHold_no_faults act_def rem_def
    by (rule tryLegalHold_no_faults(2))
  also have "\<dots> = map (\<lambda>d. if d_id d \<in> set act then d\<lparr>e_lhold := Some True\<rparr>
               else if d_id d \<in> set rem then d\<lparr>e_lhold := Some False\<rparr> else d) (documents st)"
    using dis by (auto simp: updateHold_def)
  finally show "documents (fst res) =
      map (\<lambda>d. if d_id d \<in> set act then d\<lparr>e_lhold := Some True\<rparr>
               else if d_id d \<in> set rem then d\<lparr>e_lhold := Some False\<rparr> else d) (documents st)" .
  show "shown ''Legal Hold activated (Yes) for documents'' (snd res) =
      replicate (length (shown ''Legal Hold activated (Yes) for documents'' pg))
        (String (int (length act)))"
    unfolding res_def runBatch_legalHold_no_faults act_def
    by (simp add: shown_status_busy tryLegalHold_no_faults(3) shown_setValue_other
        shown_clearAllValues)
qed

text \<open>
  C10: over one state of the documents, no \<^verbatim>\<open>d_id\<close> is both in \<^verbatim>\<open>activateDocIds\<close> and in
  \<^verbatim>\<open>removeDocIds\<close>, whatever the employees are: the first are drawn from the documents
  whose \<^verbatim>\<open>e_lhold\<close> is false, the second from those whose \<^verbatim>\<open>e_lhold\<close> is true.
\<close>

theorem C10_activate_remove_disjoint:
  "distinct (map d_id docs) \<Longrightarrow>
   set (activateDocIds (docsWithHold False docs) empYesRows) \<inter>
   set (removeDocIds (docsWithHold True docs) empNoRows) = {}"
  by (rule hold_sets_disjoint)

theorem C7_legal_hold_propagation_witness:
  "distinct (map d_id (documents exampleStore)) \<and>
   activateDocIds (docsWithHold False (documents exampleStore))
     (empsWithHold True (employees exampleStore)) = [''D3''] \<and>
   removeDocIds (docsWithHold True (documents exampleStore))
     (empsWithHold False (employees exampleStore)) = [''D2''] \<and>
   map (\<lambda>d. (d_id d, e_lhold d))
     (documents (fst (runBatch_legalHold zoneUTC (\<lambda>_. None) 1000 4500 exampleStore pageLegalHold))) =
     [(''D4'', Some False), (''D2'', Some False), (''D3'', Some True), (''D1'', Some False)] \<and>
   shown ''Legal Hold activated (Yes) for documents''
     (snd (runBatch_legalHold zoneUTC (\<lambda>_. None) 1000 4500 exampleStore pageLegalHold)) = [''1'']"
proof -
  have h: "distinct (map d_id (documents exampleStore))" by code_simp
  have a: "activateDocIds (docsWithHold False (documents exampleStore))
     (empsWithHold True (employees exampleStore)) = [''D3'']" by code_simp
  have r: "removeDocIds (docsWithHold True (documents exampleStore))
     (empsWithHold False (employees exampleStore)) = [''D2'']" by code_simp
  note T = C7_legal_hold_propagation [where st = exampleStore and tz = zoneUTC and startedAt = 1000
      and endedAt = 4500 and pg = pageLegalHold, OF h, unfolded a r]
  have d: "documents (fst (runBatch_legalHold zoneUTC (\<lambda>_. None) 1000 4500 exampleStore pageLegalHold)) =
      map (\<lambda>d. if d_id d \<in> set [''D3''] then d\<lparr>e_lhold := Some True\<rparr>
               else if d_id d \<in> set [''D2''] then d\<lparr>e_lhold := Some False\<rparr> else d)
        (documents exampleStore)"
    using T by (elim conjE)
  have e: "map (\<lambda>d. (d_id d, e_lhold d))
      (map (\<lambda>d. if d_id d \<in> set [''D3''] then d\<lparr>e_lhold := Some True\<rparr>
               else if d_id d \<in> set [''D2''] then d\<lparr>e_lhold := Some False\<rparr> else d)
        (documents exampleStore)) =
     [(''D4'', Some False), (''D2'', Some False), (''D3'', Some True), (''D1'', Some False)]"
    by code_simp
  have s: "shown ''Legal Hold activated (Yes) for documents''
     (snd (runBatch_legalHold zoneUTC (\<lambda>_. None) 1000 4500 exampleStore pageLegalHold)) =
      replicate (length (shown ''Legal Hold activated (Yes) for documents'' pageLegalHold))
        (String (int (length [''D3''])))"
    using T by (elim conjE)
  have v: "replicate (length (shown ''Legal Hold activated (Yes) for documents'' pageLegalHold))
        (String (int (length [''D3'']))) = [''1'']"
    by code_simp
  show ?thesis
    by (intro conjI h a r) (simp_all only: d e s v)
qed

theorem C10_activate_remove_disjoint_witness:
  "distinct (map d_id (documents exampleStore)) \<and>
   set (activateDocIds (docsWithHold False (documents exampleStore))
          (empsWithHold True (employees exampleStore))) \<inter>
   set (removeDocIds (docsWithHold True (documents exampleStore))
          (empsWithHold False (employees exampleStore))) = {}"
proof -
  have h: "distinct (map d_id (documents exampleStore))" by code_simp
  from C10_activate_remove_disjoint [OF h] h show ?thesis by simp
qed

section \<open>What the operator sees when a request fails\<close>

lemma chunk_nonempty: "ids \<in> set (chunk xs n) \<Longrightarrow> ids \<noteq> []"
proof (induction xs n rule: chunk.induct)
  case (1 arr sz)
  show ?case
  proof (cases "arr = [] \<or> sz = 0")
    case True
    with 1(2) show ?thesis by (subst (asm) chunk.simps) simp
  next
    case False
    with 1(2) have "ids = take sz arr \<or> ids \<in> set (chunk (drop sz arr) sz)"
      by (subst (asm) chunk.simps) simp
    then show ?thesis using 1(1) False by auto
  qed
qed

text \<open>The loops over the requests: all answered, or a first one that fails.\<close>

lemma loadEmployees_no_faults:
  "\<exists>m'. loadEmployees (\<lambda>_. None) emps parts k m = Inr (m', k + length parts)"
proof (induction parts arbitrary: k m)
  case Nil
  show ?case by simp
next
  case (Cons part parts)
  from Cons [of "k + 1" "foldl (\<lambda>m e. m(EmpMini.e_id e \<mapsto> e)) m (selectEmployees part emps)"]
  show ?case by simp
qed

lemma loadEmployees_ok:
  "(\<forall>j. k \<le> j \<and> j < k + length parts \<longrightarrow> faults j = None) \<Longrightarrow>
   loadEmployees faults emps parts k m = loadEmployees (\<lambda>_. None) emps parts k m"
  by (induction parts arbitrary: k m) simp_all

lemma loadEmployees_first_fault:
  "k \<le> i \<Longrightarrow> i < k + length parts \<Longrightarrow> faults i = Some e \<Longrightarrow>
   (\<forall>j. k \<le> j \<and> j < i \<longrightarrow> faults j = None) \<Longrightarrow>
   loadEmployees faults emps parts k m = Inl e"
proof (induction parts arbitrary: k m)
  case Nil
  then show ?case by simp
next
  case (Cons part parts)
  show ?case
  proof (cases "i = k")
    case True
    with Cons.prems show ?thesis by simp
  next
    case False
    with Cons.prems have "faults k = None" "k + 1 \<le> i" "i < k + 1 + length parts"
      "\<forall>j. k + 1 \<le> j \<and> j < i \<longrightarrow> faults j = None"
      by simp_all
    with Cons.IH [OF this(2,3) Cons.prems(3) this(4)] show ?thesis by simp
  qed
qed

lemma applyUpdates_ok:
  "(\<forall>j. k \<le> j \<and> j < k + length us \<longrightarrow> faults j = None) \<Longrightarrow>
   applyUpdates faults us k docs =
     (None, foldl (\<lambda>ds u. updateRetention u ds) docs us, k + length us)"
  by (induction us arbitrary: k docs) simp_all

lemma applyUpdates_first_fault:
  "k \<le> i \<Longrightarrow> i < k + length us \<Longrightarrow> faults i = Some e \<Longrightarrow>
   (\<forall>j. k \<le> j \<and> j < i \<longrightarrow> faults j = None) \<Longrightarrow>
   applyUpdates faults us k docs =
     (Some e, foldl (\<lambda>ds u. updateRetention u ds) docs (take (i - k) us), i + 1)"
proof (induction us arbitrary: k docs)
  case Nil
  then show ?case by simp
next
  case (Cons u us)
  show ?case
  proof (cases "i = k")
    case True
    with Cons.prems show ?thesis by simp
  next
    case False
    with Cons.prems have h: "faults k = None" "k + 1 \<le> i" "i < k + 1 + length us"
      "\<forall>j. k + 1 \<le> j \<and> j < i \<longrightarrow> faults j = None"
      by simp_all
    have "i - k = Suc (i - (k + 1))" using h(2) by simp
    with Cons.IH [OF h(2,3) Cons.prems(3) h(4)] h(1) show ?thesis by simp
  qed
qed

lemma applyUpdates_append:
  "applyUpdates faults (us @ vs) k docs =
     (case applyUpdates faults us k docs of
        (Some err, d, k') \<Rightarrow> (Some err, d, k')
      | (None, d, k') \<Rightarrow> applyUpdates faults vs k' d)"
  by (induction us arbitrary: k docs) (simp_all split: option.splits)

lemma applyChunks_concat:
  "applyChunks faults parts k docs = applyUpdates faults (concat parts) k docs"
  by (induction parts arbitrary: k docs)
    (simp_all add: applyUpdates_append split: prod.splits option.splits)

lemma holdChunks_ok:
  "(\<forall>p \<in> set parts. p \<noteq> []) \<Longrightarrow>
   (\<forall>j. k \<le> j \<and> j < k + length parts \<longrightarrow> faults j = None) \<Longrightarrow>
   holdChunks faults b parts k docs cnt =
     (None, updateHold b (concat parts) docs, k + length parts, cnt + length (concat parts))"
proof (induction parts arbitrary: k docs cnt)
  case Nil
  show ?case by (simp add: updateHold_nil)
next
  case (Cons ids rest)
  then show ?case by (simp add: updateHold_append)
qed

lemma holdChunks_first_fault:
  "(\<forall>p \<in> set parts. p \<noteq> []) \<Longrightarrow>
   k \<le> i \<Longrightarrow> i < k + length parts \<Longrightarrow> faults i = Some e \<Longrightarrow>
   (\<forall>j. k \<le> j \<and> j < i \<longrightarrow> faults j = None) \<Longrightarrow>
   \<exists>d c. holdChunks faults b parts k docs cnt = (Some e, d, i + 1, c)"
proof (induction parts arbitrary: k docs cnt)
  case Nil
  then show ?case by simp
next
  case (Cons ids rest)
  show ?case
  proof (cases "i = k")
    case True
    with Cons.prems show ?thesis by simp
  next
    case False
    with Cons.prems have h: "faults k = None" "k + 1 \<le> i" "i < k + 1 + length rest"
      "\<forall>j. k + 1 \<le> j \<and> j < i \<longrightarrow> faults j = None" "\<forall>p \<in> set rest. p \<noteq> []" "ids \<noteq> []"
      by simp_all
    from Cons.IH [OF h(5,2,3) Cons.prems(4) h(4)] h(1,6) show ?thesis by simp
  qed
qed

text \<open>
  The \<^verbatim>\<open>try\<close> of the retention batch by the number \<open>i\<close> of requests answered before
  the first one that fails: the page is as the last \<^verbatim>\<open>setValue\<close> before that request
  left it.
\<close>

lemma tryRetention_stages:
  fixes tz :: zone and newDate :: "string \<Rightarrow> int option" and faults :: "nat \<Rightarrow> string option"
    and startedAt today endedAt :: int and st :: Store and pg :: Page and i :: nat and e :: string
  defines "nE \<equiv> length (employeeParts st)"
  defines "ups \<equiv> plannedUpdates tz newDate today st"
  defines "cnt \<equiv> plannedCounts tz newDate today st"
  defines "pgDocs \<equiv> setValue ''Total number of documents'' (String (int (length (documents st)))) pg"
  defines \<open>pgCounts \<equiv>
     setValue ''Number of documents in status "expired"'' (String (int (cnt ''expired'')))
       (setValue ''Number of documents in status "legal hold"'' (String (int (cnt ''legal hold'')))
         (setValue ''Number of documents in status "started"'' (String (int (cnt ''started'')))
           (setValue ''Number of documents in status "not started"''
              (String (int (cnt ''not started'')))
             (setValue ''Number of documents in status "not set"'' (String (int (cnt ''not set'')))
               (setValue ''Total number of updated retention status''
                  (String (int (length ups))) pgDocs)))))\<close>
  assumes p: "\<forall>j<i. faults j = None"
  shows "i = 0 \<Longrightarrow> faults i = Some e \<Longrightarrow>
      tryRetention tz newDate faults startedAt today endedAt st pg = (Some e, st, pg)"
    and "0 < i \<Longrightarrow> i < 1 + nE \<Longrightarrow> faults i = Some e \<Longrightarrow>
      tryRetention tz newDate faults startedAt today endedAt st pg = (Some e, st, pgDocs)"
    and "1 + nE \<le> i \<Longrightarrow> i < 1 + nE + length ups \<Longrightarrow> faults i = Some e \<Longrightarrow>
      \<exists>st'. tryRetention tz newDate faults startedAt today endedAt st pg = (Some e, st', pgCounts)"
    and "i = 1 + nE + length ups \<Longrightarrow>
      \<exists>st'. tryRetention tz newDate faults startedAt today endedAt st pg =
        (None, st',
         setValue ''Process duration'' (String (endedAt - startedAt) @ '' ms'')
           (setValue ''End time'' (fmtTimeWithMs tz (Some endedAt)) pgCounts))"
proof -
  show "tryRetention tz newDate faults startedAt today endedAt st pg = (Some e, st, pg)"
    if "i = 0" "faults i = Some e"
    using that by (simp add: tryRetention_def)
  show "tryRetention tz newDate faults startedAt today endedAt st pg = (Some e, st, pgDocs)"
    if i: "0 < i" "i < 1 + nE" and f: "faults i = Some e"
  proof -
    have z: "faults 0 = None" using p i(1) by simp
    have "loadEmployees faults (employees st) (employeeParts st) 1 Map.empty = Inl e"
      using i f p by (intro loadEmployees_first_fault [where i = i]) (simp_all add: nE_def)
    then show ?thesis
      by (simp add: tryRetention_def Let_def z employeeParts_def pgDocs_def)
  qed
  obtain m' where L0: "loadEmployees (\<lambda>_. None) (employees st) (employeeParts st) 1 Map.empty
      = Inr (m', 1 + nE)"
    unfolding nE_def using loadEmployees_no_faults by blast
  have M: "loadedMap st = m'" using L0 by (simp add: loadedMap_def)
  have later: "faults 0 = None \<and>
      loadEmployees faults (employees st) (employeeParts st) 1 Map.empty = Inr (m', 1 + nE)"
    if "1 + nE \<le> i"
  proof -
    have "\<forall>j. 1 \<le> j \<and> j < 1 + length (employeeParts st) \<longrightarrow> faults j = None"
      using p that by (simp add: nE_def)
    from loadEmployees_ok [OF this] L0 p that show ?thesis by simp
  qed
  have C: "applyChunks faults (chunk ups 200) k docs = applyUpdates faults ups k docs" for k docs
    by (simp add: applyChunks_concat concat_chunk)
  have U: "snd (processDocs tz newDate today m' (documents st)) = ups"
    "fst (processDocs tz newDate today m' (documents st)) = cnt"
    by (simp_all add: ups_def cnt_def plannedUpdates_def plannedCounts_def M)
  show "\<exists>st'. tryRetention tz newDate faults startedAt today endedAt st pg = (Some e, st', pgCounts)"
    if i: "1 + nE \<le> i" "i < 1 + nE + length ups" and f: "faults i = Some e"
  proof -
    have "applyUpdates faults ups (1 + nE) (documents st) =
        (Some e, foldl (\<lambda>ds u. updateRetention u ds) (documents st) (take (i - (1 + nE)) ups), i + 1)"
      using i f p by (intro applyUpdates_first_fault) simp_all
    then show ?thesis
      using later [OF i(1)]
      by (simp add: tryRetention_def Let_def employeeParts_def [symmetric] C U pgCounts_def pgDocs_def)
  qed
  show "\<exists>st'. tryRetention tz newDate faults startedAt today endedAt st pg =
        (None, st',
         setValue ''Process duration'' (String (endedAt - startedAt) @ '' ms'')
           (setValue ''End time'' (fmtTimeWithMs tz (Some endedAt)) pgCounts))"
    if i: "i = 1 + nE + length ups"
  proof -
    have "\<forall>j. 1 + nE \<le> j \<and> j < 1 + nE + length ups \<longrightarrow> faults j = None"
      using p i by simp
    from applyUpdates_ok [OF this, of "documents st"] show ?thesis
      using later [of] i
      by (simp add: tryRetention_def Let_def employeeParts_def [symmetric] C U pgCounts_def pgDocs_def)
  qed
qed

lemma firstError_three:
  "faults a = None \<Longrightarrow> faults b = None \<Longrightarrow> faults c = None \<Longrightarrow>
   firstError [faults a, faults b, faults c] = None"
  "faults a = Some e \<Longrightarrow> firstError [faults a, faults b, faults c] = Some e"
  "faults a = None \<Longrightarrow> faults b = Some e \<Longrightarrow> firstError [faults a, faults b, faults c] = Some e"
  "faults a = None \<Longrightarrow> faults b = None \<Longrightarrow> faults c = Some e \<Longrightarrow>
   firstError [faults a, faults b, faults c] = Some e"
  by simp_all

lemma below_three: "i < 3 \<Longrightarrow> i = 0 \<or> i = 1 \<or> i = (2::nat)"
  by arith

lemma three_to_six: "3 \<le> i \<Longrightarrow> i < 7 \<Longrightarrow> i = 3 \<or> i = 4 \<or> i = 5 \<or> i = (6::nat)"
  by arith

text \<open>The \<^verbatim>\<open>try\<close> of the legal hold batch, in the same way.\<close>

lemma tryLegalHold_stages:
  fixes tz :: zone and faults :: "nat \<Rightarrow> string option"
    and startedAt endedAt :: int and st :: Store and pg :: Page and i :: nat and e :: string
  defines "act \<equiv> activateDocIds (docsWithHold False (documents st)) (empsWithHold True (employees st))"
  defines "rem \<equiv> removeDocIds (docsWithHold True (documents st)) (empsWithHold False (employees st))"
  defines "nA \<equiv> length (activateParts st)"
  defines "nR \<equiv> length (removeParts st)"
  defines "pgEmp \<equiv>
     setValue ''Employees, Total'' (String (int (length (employees st))))
       (setValue ''Employees, Legal Hold = yes''
          (String (int (length (empsWithHold True (employees st)))))
         (setValue ''Employees, Legal Hold = no''
            (String (int (length (empsWithHold False (employees st))))) pg))"
  defines "pgHold \<equiv>
     setValue ''Legal Hold removed (No) for documents'' (String (int (length rem)))
       (setValue ''Legal Hold activated (Yes) for documents'' (String (int (length act))) pgEmp)"
  defines "docs' \<equiv> updateHold False rem (updateHold True act (documents st))"
  assumes p: "\<forall>j<i. faults j = None"
  shows "i < 3 \<Longrightarrow> faults i = Some e \<Longrightarrow>
      tryLegalHold tz faults startedAt endedAt st pg = (Some e, st, pg)"
    and "3 \<le> i \<Longrightarrow> i < 7 \<Longrightarrow> faults i = Some e \<Longrightarrow>
      tryLegalHold tz faults startedAt endedAt st pg = (Some e, st, pgEmp)"
    and "7 \<le> i \<Longrightarrow> i < 7 + nA + nR \<Longrightarrow> faults i = Some e \<Longrightarrow>
      \<exists>st'. tryLegalHold tz faults startedAt endedAt st pg = (Some e, st', pgEmp)"
    and "7 + nA + nR \<le> i \<Longrightarrow> i < 10 + nA + nR \<Longrightarrow> faults i = Some e \<Longrightarrow>
      tryLegalHold tz faults startedAt endedAt st pg = (Some e, st\<lparr>documents := docs'\<rparr>, pgHold)"
    and "i = 10 + nA + nR \<Longrightarrow>
      tryLegalHold tz faults startedAt endedAt st pg =
        (None, st\<lparr>documents := docs'\<rparr>,
         setValue ''Process duration'' (String (endedAt - startedAt) @ '' ms'')
           (setValue ''End time'' (fmtTimeWithMs tz (Some endedAt))
             (setValue ''Documents, Total'' (String (int (length docs')))
               (setValue ''Documents, Legal Hold = yes''
                  (String (int (length (docsWithHold True docs'))))
                 (setValue ''Documents, Legal Hold = no''
                    (String (int (length (docsWithHold False docs')))) pgHold)))))"
proof -
  have A: "chunk act 500 = activateParts st" "chunk rem 500 = removeParts st"
    by (simp_all add: activateParts_def removeParts_def act_def rem_def)
  have ne: "\<forall>p \<in> set (activateParts st). p \<noteq> []" "\<forall>p \<in> set (removeParts st). p \<noteq> []"
    using chunk_nonempty unfolding activateParts_def removeParts_def by blast+
  have cc: "concat (activateParts st) = act" "concat (removeParts st) = rem"
    by (simp_all add: A [symmetric] concat_chunk)
  show "tryLegalHold tz faults startedAt endedAt st pg = (Some e, st, pg)"
    if i: "i < 3" and f: "faults i = Some e"
  proof -
    have "firstError [faults 0, faults 1, faults 2] = Some e"
      using below_three [OF i] f p by (elim disjE) (simp_all add: firstError_three)
    then show ?thesis by (simp add: tryLegalHold_def)
  qed
  have first: "firstError [faults 0, faults 1, faults 2] = None" if "3 \<le> i"
    using p that by (simp add: firstError_three)
  show "tryLegalHold tz faults startedAt endedAt st pg = (Some e, st, pgEmp)"
    if i: "3 \<le> i" "i < 7" and f: "faults i = Some e"
    using three_to_six [OF i] f p first [OF i(1)]
    by (elim disjE) (simp_all add: tryLegalHold_def Let_def pgEmp_def)
  have reads: "faults 3 = None" "faults 4 = None" "faults 5 = None" "faults 6 = None" if "7 \<le> i"
    using p that by simp_all
  have actOK: "holdChunks faults True (activateParts st) 7 (documents st) 0 =
      (None, updateHold True act (documents st), 7 + nA, length act)" if "7 + nA \<le> i"
  proof -
    have "\<forall>j. 7 \<le> j \<and> j < 7 + length (activateParts st) \<longrightarrow> faults j = None"
      using p that by (simp add: nA_def)
    from holdChunks_ok [OF ne(1) this] show ?thesis by (simp add: cc nA_def)
  qed
  have remOK: "holdChunks faults False (removeParts st) (7 + nA) docs 0 =
      (None, updateHold False rem docs, 7 + nA + nR, length rem)" if "7 + nA + nR \<le> i" for docs
  proof -
    have "\<forall>j. 7 + nA \<le> j \<and> j < 7 + nA + length (removeParts st) \<longrightarrow> faults j = None"
      using p that by (simp add: nR_def)
    from holdChunks_ok [OF ne(2) this] show ?thesis by (simp add: cc nR_def)
  qed
  show "\<exists>st'. tryLegalHold tz faults startedAt endedAt st pg = (Some e, st', pgEmp)"
    if i: "7 \<le> i" "i < 7 + nA + nR" and f: "faults i = Some e"
  proof (cases "i < 7 + nA")
    case True
    have "\<forall>j. 7 \<le> j \<and> j < i \<longrightarrow> faults j = None" using p by simp
    from holdChunks_first_fault [OF ne(1) i(1) _ f this, of True "documents st" 0] True
    obtain d c where "holdChunks faults True (activateParts st) 7 (documents st) 0 = (Some e, d, i + 1, c)"
      by (auto simp: nA_def)
    then show ?thesis
      using first reads i(1) by (simp add: tryLegalHold_def Let_def pgEmp_def activateParts_def removeParts_def
          act_def rem_def nA_def nR_def)
  next
    case False
    then have a: "7 + nA \<le> i" by simp
    have "\<forall>j. 7 + nA \<le> j \<and> j < i \<longrightarrow> faults j = None" using p by simp
    from holdChunks_first_fault [OF ne(2) a _ f this, of False "updateHold True act (documents st)" 0] i(2)
    obtain d c where "holdChunks faults False (removeParts st) (7 + nA)
        (updateHold True act (documents st)) 0 = (Some e, d, i + 1, c)"
      by (auto simp: nR_def)
    then show ?thesis
      using first reads i(1) actOK [OF a]
      by (simp add: tryLegalHold_def Let_def pgEmp_def activateParts_def removeParts_def
          act_def rem_def nA_def nR_def)
  qed
  show "tryLegalHold tz faults startedAt endedAt st pg = (Some e, st\<lparr>documents := docs'\<rparr>, pgHold)"
    if i: "7 + nA + nR \<le> i" "i < 10 + nA + nR" and f: "faults i = Some e"
  proof -
    have "i = 7 + nA + nR \<or> i = 7 + nA + nR + 1 \<or> i = 7 + nA + nR + 2" using i by arith
    then have "firstError [faults (7 + nA + nR), faults (7 + nA + nR + 1), faults (7 + nA + nR + 2)]
        = Some e"
      using f p by (elim disjE) (simp_all add: firstError_three)
    moreover have "7 \<le> i" "7 + nA \<le> i" using i(1) by simp_all
    ultimately show ?thesis
      using first reads actOK remOK [OF i(1)]
      by (simp add: tryLegalHold_def Let_def pgEmp_def pgHold_def docs'_def
          activateParts_def removeParts_def act_def rem_def nA_def nR_def)
  qed
  show "tryLegalHold tz faults startedAt endedAt st pg =
        (None, st\<lparr>documents := docs'\<rparr>,
         setValue ''Process duration'' (String (endedAt - startedAt) @ '' ms'')
           (setValue ''End time'' (fmtTimeWithMs tz (Some endedAt))
             (setValue ''Documents, Total'' (String (int (length docs')))
               (setValue ''Documents, Legal Hold = yes''
                  (String (int (length (docsWithHold True docs'))))
                 (setValue ''Documents, Legal Hold = no''
                    (String (int (length (docsWithHold False docs')))) pgHold)))))"
    if i: "i = 10 + nA + nR"
  proof -
    have "firstError [faults (7 + nA + nR), faults (7 + nA + nR + 1), faults (7 + nA + nR + 2)]
        = None"
      using p i by (simp add: firstError_three)
    moreover have "7 \<le> i" "7 + nA \<le> i" "7 + nA + nR \<le> i" "3 \<le> i" using i by simp_all
    ultimately show ?thesis
      using first reads actOK remOK
      by (simp add: tryLegalHold_def Let_def pgEmp_def pgHold_def docs'_def
          activateParts_def removeParts_def act_def rem_def nA_def nR_def)
  qed
qed

text \<open>The rows of a page after the calls of \<open>setValue\<close>.\<close>

lemma shown_setValue:
  "shown l (setValue l' v pg) = (if l = l' then replicate (length (shown l pg)) v else shown l pg)"
  by (simp add: shown_setValue_same shown_setValue_other)

lemma start_page:
  "shown l (setValue ''Start time'' v (clearAllValues (pg\<lparr>busy := True, status := []\<rparr>))) =
     replicate (length (shown l pg)) (if l = ''Start time'' then v else [])"
  by (simp add: shown_setValue shown_clearAllValues) (simp add: shown_def)

lemma runBatch_retention_report:
  fixes tz :: zone and newDate :: "string \<Rightarrow> int option" and faults :: "nat \<Rightarrow> string option"
    and startedAt today endedAt :: int and st :: Store and pg :: Page and i :: nat and e :: string
  defines "rr \<equiv> snd (runBatch_retention tz newDate faults startedAt today endedAt st pg)"
  defines "nE \<equiv> length (employeeParts st)"
  defines "n \<equiv> requestsRetention tz newDate today st"
  assumes p: "\<forall>j<i. faults j = None" and i: "i \<le> n" and f: "i < n \<longrightarrow> faults i = Some e"
  shows \<open>status rr =
       (if i < n then ''Error: '' @ e else ''Successful: Retention batch finished.'') \<and>
     busy rr = False \<and>
     shown ''Start time'' rr =
       replicate (length (shown ''Start time'' pg)) (fmtTimeWithMs tz (Some startedAt)) \<and>
     shown ''Total number of documents'' rr =
       replicate (length (shown ''Total number of documents'' pg))
         (if 1 \<le> i then String (int (length (documents st))) else []) \<and>
     shown ''Total number of updated retention status'' rr =
       replicate (length (shown ''Total number of updated retention status'' pg))
         (if 1 + nE \<le> i then String (int (length (plannedUpdates tz newDate today st))) else []) \<and>
     shown ''Number of documents in status "not set"'' rr =
       replicate (length (shown ''Number of documents in status "not set"'' pg))
         (if 1 + nE \<le> i then String (int (plannedCounts tz newDate today st ''not set'')) else []) \<and>
     shown ''Number of documents in status "not started"'' rr =
       replicate (length (shown ''Number of documents in status "not started"'' pg))
         (if 1 + nE \<le> i then String (int (plannedCounts tz newDate today st ''not started''))
          else []) \<and>
     shown ''Number of documents in status "started"'' rr =
       replicate (length (shown ''Number of documents in status "started"'' pg))
         (if 1 + nE \<le> i then String (int (plannedCounts tz newDate today st ''started'')) else []) \<and>
     shown ''Number of documents in status "legal hold"'' rr =
       replicate (length (shown ''Number of documents in status "legal hold"'' pg))
         (if 1 + nE \<le> i then String (int (plannedCounts tz newDate today st ''legal hold''))
          else []) \<and>
     shown ''Number of documents in status "expired"'' rr =
       replicate (length (shown ''Number of documents in status "expired"'' pg))
         (if 1 + nE \<le> i then String (int (plannedCounts tz newDate today st ''expired'')) else []) \<and>
     shown ''End time'' rr =
       replicate (length (shown ''End time'' pg))
         (if i < n then [] else fmtTimeWithMs tz (Some endedAt)) \<and>
     shown ''Process duration'' rr =
       replicate (length (shown ''Process duration'' pg))
         (if i < n then [] else String (endedAt - startedAt) @ '' ms'')\<close>
proof -
  define pg1 where "pg1 = setValue ''Start time'' (fmtTimeWithMs tz (Some startedAt))
    (clearAllValues (pg\<lparr>busy := True, status := []\<rparr>))"
  have sp: "shown l pg1 = replicate (length (shown l pg))
      (if l = ''Start time'' then fmtTimeWithMs tz (Some startedAt) else [])" for l
    unfolding pg1_def by (rule start_page)
  have n: "n = 1 + nE + length (plannedUpdates tz newDate today st)"
    by (simp add: n_def nE_def requestsRetention_def)
  have run: "rr = (case tryRetention tz newDate faults startedAt today endedAt st pg1 of
       (None, st', pg') \<Rightarrow> pg'\<lparr>status := ''Successful: Retention batch finished.'', busy := False\<rparr>
     | (Some e, st', pg') \<Rightarrow> pg'\<lparr>status := ''Error: '' @ e, busy := False\<rparr>)"
    by (simp add: rr_def runBatch_retention_def Let_def pg1_def split: prod.splits option.splits)
  note S1 = tryRetention_stages(1) [OF p, where tz = tz and newDate = newDate
      and today = today and st = st and startedAt = startedAt and endedAt = endedAt
      and pg = pg1]
  note S2 = tryRetention_stages(2) [OF p, where tz = tz and newDate = newDate
      and today = today and st = st and startedAt = startedAt and endedAt = endedAt
      and pg = pg1, folded nE_def]
  note S3 = tryRetention_stages(3) [OF p, where tz = tz and newDate = newDate
      and today = today and st = st and startedAt = startedAt and endedAt = endedAt
      and pg = pg1, folded nE_def]
  note S4 = tryRetention_stages(4) [OF p, where tz = tz and newDate = newDate
      and today = today and st = st and startedAt = startedAt and endedAt = endedAt
      and pg = pg1, folded nE_def]
  consider "i = 0" | "0 < i" "i < 1 + nE" | "1 + nE \<le> i" "i < n" | "i = n"
    using i by linarith
  then show ?thesis
  proof cases
    case 1
    then have "faults i = Some e" using f n by simp
    from S1 [OF 1 this] 1 n show ?thesis
      by (simp add: run shown_status_busy sp)
  next
    case 2
    then have "faults i = Some e" using f n by simp
    from S2 [OF 2 this] 2 n show ?thesis
      by (simp add: run shown_status_busy shown_setValue sp)
  next
    case 3
    then have "faults i = Some e" using f by simp
    from S3 [OF 3(1) 3(2) [unfolded n] this] obtain st' where
      \<open>tryRetention tz newDate faults startedAt today endedAt st pg1 = (Some e, st',
        setValue ''Number of documents in status "expired"''
          (String (int (plannedCounts tz newDate today st ''expired'')))
         (setValue ''Number of documents in status "legal hold"''
           (String (int (plannedCounts tz newDate today st ''legal hold'')))
           (setValue ''Number of documents in status "started"''
             (String (int (plannedCounts tz newDate today st ''started'')))
             (setValue ''Number of documents in status "not started"''
               (String (int (plannedCounts tz newDate today st ''not started'')))
               (setValue ''Number of documents in status "not set"''
                 (String (int (plannedCounts tz newDate today st ''not set'')))
                 (setValue ''Total number of updated retention status''
                   (String (int (length (plannedUpdates tz newDate today st))))
                   (setValue ''Total number of documents''
                     (String (int (length (documents st)))) pg1)))))))\<close>
      by blast
    with 3 show ?thesis
      by (simp add: run shown_status_busy shown_setValue sp)
  next
    case 4
    from S4 [OF 4 [unfolded n]] obtain st' where
      \<open>tryRetention tz newDate faults startedAt today endedAt st pg1 = (None, st',
       setValue ''Process duration'' (String (endedAt - startedAt) @ '' ms'')
        (setValue ''End time'' (fmtTimeWithMs tz (Some endedAt))
        (setValue ''Number of documents in status "expired"''
          (String (int (plannedCounts tz newDate today st ''expired'')))
         (setValue ''Number of documents in status "legal hold"''
           (String (int (plannedCounts tz newDate today st ''legal hold'')))
           (setValue ''Number of documents in status "started"''
             (String (int (plannedCounts tz newDate today st ''started'')))
             (setValue ''Number of documents in status "not started"''
               (String (int (plannedCounts tz newDate today st ''not started'')))
               (setValue ''Number of documents in status "not set"''
                 (String (int (plannedCounts tz newDate today st ''not set'')))
                 (setValue ''Total number of updated retention status''
                   (String (int (length (plannedUpdates tz newDate today st))))
                   (setValue ''Total number of documents''
                     (String (int (length (documents st)))) pg1)))))))))\<close>
      by blast
    with 4 n show ?thesis
      by (simp add: run shown_status_busy shown_setValue sp)
  qed
qed

lemma runBatch_legalHold_report:
  fixes tz :: zone and faults :: "nat \<Rightarrow> string option"
    and startedAt endedAt :: int and st :: Store and pg :: Page and i :: nat and e :: string
  defines "rl \<equiv> snd (runBatch_legalHold tz faults startedAt endedAt st pg)"
  defines "sl \<equiv> fst (runBatch_legalHold tz faults startedAt endedAt st pg)"
  defines "nW \<equiv> 7 + length (activateParts st) + length (removeParts st)"
  defines "n \<equiv> requestsLegalHold st"
  assumes p: "\<forall>j<i. faults j = None" and i: "i \<le> n" and f: "i < n \<longrightarrow> faults i = Some e"
  shows "status rl =
       (if i < n then ''Error: '' @ e else ''Successful: Legal Hold batch finished.'') \<and>
     busy rl = False \<and>
     shown ''Start time'' rl =
       replicate (length (shown ''Start time'' pg)) (fmtTimeWithMs tz (Some startedAt)) \<and>
     shown ''Employees, Legal Hold = no'' rl =
       replicate (length (shown ''Employees, Legal Hold = no'' pg))
         (if 3 \<le> i then String (int (length (empsWithHold False (employees st)))) else []) \<and>
     shown ''Employees, Legal Hold = yes'' rl =
       replicate (length (shown ''Employees, Legal Hold = yes'' pg))
         (if 3 \<le> i then String (int (length (empsWithHold True (employees st)))) else []) \<and>
     shown ''Employees, Total'' rl =
       replicate (length (shown ''Employees, Total'' pg))
         (if 3 \<le> i then String (int (length (employees st))) else []) \<and>
     shown ''Legal Hold activated (Yes) for documents'' rl =
       replicate (length (shown ''Legal Hold activated (Yes) for documents'' pg))
         (if nW \<le> i
          then String (int (length (activateDocIds (docsWithHold False (documents st))
                 (empsWithHold True (employees st)))))
          else []) \<and>
     shown ''Legal Hold removed (No) for documents'' rl =
       replicate (length (shown ''Legal Hold removed (No) for documents'' pg))
         (if nW \<le> i
          then String (int (length (removeDocIds (docsWithHold True (documents st))
                 (empsWithHold False (employees st)))))
          else []) \<and>
     shown ''Documents, Legal Hold = no'' rl =
       replicate (length (shown ''Documents, Legal Hold = no'' pg))
         (if i < n then [] else String (int (length (docsWithHold False (documents sl))))) \<and>
     shown ''Documents, Legal Hold = yes'' rl =
       replicate (length (shown ''Documents, Legal Hold = yes'' pg))
         (if i < n then [] else String (int (length (docsWithHold True (documents sl))))) \<and>
     shown ''Documents, Total'' rl =
       replicate (length (shown ''Documents, Total'' pg))
         (if i < n then [] else String (int (length (documents sl)))) \<and>
     shown ''End time'' rl =
       replicate (length (shown ''End time'' pg))
         (if i < n then [] else fmtTimeWithMs tz (Some endedAt)) \<and>
     shown ''Process duration'' rl =
       replicate (length (shown ''Process duration'' pg))
         (if i < n then [] else String (endedAt - startedAt) @ '' ms'')"
proof -
  define pg1 where "pg1 = setValue ''Start time'' (fmtTimeWithMs tz (Some startedAt))
    (clearAllValues (pg\<lparr>busy := True, status := []\<rparr>))"
  have sp: "shown l pg1 = replicate (length (shown l pg))
      (if l = ''Start time'' then fmtTimeWithMs tz (Some startedAt) else [])" for l
    unfolding pg1_def by (rule start_page)
  have n: "n = 10 + length (activateParts st) + length (removeParts st)" "nW + 3 = n"
    by (simp_all add: n_def nW_def requestsLegalHold_def)
  have run: "runBatch_legalHold tz faults startedAt endedAt st pg =
     (case tryLegalHold tz faults startedAt endedAt st pg1 of
       (None, st', pg') \<Rightarrow>
         (st', pg'\<lparr>status := ''Successful: Legal Hold batch finished.'', busy := False\<rparr>)
     | (Some e, st', pg') \<Rightarrow> (st', pg'\<lparr>status := ''Error: '' @ e, busy := False\<rparr>))"
    by (simp add: runBatch_legalHold_def Let_def pg1_def)
  note S1 = tryLegalHold_stages(1) [OF p, where tz = tz and st = st and startedAt = startedAt
      and endedAt = endedAt and pg = pg1]
  note S2 = tryLegalHold_stages(2) [OF p, where tz = tz and st = st and startedAt = startedAt
      and endedAt = endedAt and pg = pg1]
  note S3 = tryLegalHold_stages(3) [OF p, where tz = tz and st = st and startedAt = startedAt
      and endedAt = endedAt and pg = pg1]
  note S4 = tryLegalHold_stages(4) [OF p, where tz = tz and st = st and startedAt = startedAt
      and endedAt = endedAt and pg = pg1]
  note S5 = tryLegalHold_stages(5) [OF p, where tz = tz and st = st and startedAt = startedAt
      and endedAt = endedAt and pg = pg1]
  consider "i < 3" | "3 \<le> i" "i < 7" | "7 \<le> i" "i < nW" | "nW \<le> i" "i < n" | "i = n"
    using i by linarith
  then show ?thesis
  proof cases
    case 1
    then have "faults i = Some e" using f n by simp
    from S1 [OF 1 this] 1 n show ?thesis
      by (simp add: rl_def sl_def run shown_status_busy sp nW_def)
  next
    case 2
    then have "faults i = Some e" using f n by simp
    from S2 [OF 2 this] 2 n show ?thesis
      by (simp add: rl_def sl_def run shown_status_busy shown_setValue sp nW_def)
  next
    case 3
    then have "faults i = Some e" using f n by simp
    from S3 [OF 3(1) 3(2) [unfolded nW_def] this] obtain st' where
      "tryLegalHold tz faults startedAt endedAt st pg1 = (Some e, st',
         setValue ''Employees, Total'' (String (int (length (employees st))))
          (setValue ''Employees, Legal Hold = yes''
            (String (int (length (empsWithHold True (employees st)))))
            (setValue ''Employees, Legal Hold = no''
              (String (int (length (empsWithHold False (employees st))))) pg1)))"
      by blast
    with 3 n show ?thesis
      by (simp add: rl_def sl_def run shown_status_busy shown_setValue sp)
  next
    case 4
    then have "faults i = Some e" using f by simp
    from S4 [OF 4(1) [unfolded nW_def] 4(2) [unfolded n] this] 4 n show ?thesis
      by (simp add: rl_def sl_def run shown_status_busy shown_setValue sp)
  next
    case 5
    from S5 [OF 5 [unfolded n]] 5 n show ?thesis
      by (simp add: rl_def sl_def run shown_status_busy shown_setValue sp)
  qed
qed

text \<open>
  C8, as stated, fails: the pages set each value of the report as soon as it is known, and
  the \<^verbatim>\<open>catch\<close> sets the status only. When the second write of the retention batch
  fails, the number of documents and the number of updates stay on screen beside the error;
  when the first read of documents of the legal hold batch fails, the numbers of employees
  do.
\<close>

theorem C8_counts_stay_on_screen_counterexample:
  "status (snd (runBatch_retention zoneUTC isoDate (failAt 3) 1000 day_2024_06_01 4500
      exampleStore pageRetention)) = ''Error: timeout'' \<and>
   shown ''Total number of documents'' (snd (runBatch_retention zoneUTC isoDate (failAt 3) 1000
      day_2024_06_01 4500 exampleStore pageRetention)) = [''4''] \<and>
   shown ''Total number of updated retention status'' (snd (runBatch_retention zoneUTC isoDate
      (failAt 3) 1000 day_2024_06_01 4500 exampleStore pageRetention)) = [''4''] \<and>
   status (snd (runBatch_legalHold zoneUTC (failAt 3) 1000 4500 exampleStore pageLegalHold))
     = ''Error: timeout'' \<and>
   shown ''Employees, Total'' (snd (runBatch_legalHold zoneUTC (failAt 3) 1000 4500 exampleStore
      pageLegalHold)) = [''2'']"
  by code_simp

text \<open>
  C8, amended. Let \<open>i\<close> requests of a run be answered, and let request \<open>i\<close> fail with the
  message \<open>e\<close> unless the run has no more than \<open>i\<close> requests. Then the page ends as
  follows, for either batch. The status is "Error: " and \<open>e\<close> when request \<open>i\<close> failed, and
  the success message when every request of the run was answered. Every value set before
  request \<open>i\<close> stays on screen beside the error: the start time always, in the retention
  batch the number of documents once the documents are read and the number of updates and
  the five status counts once the employees are read, in the legal hold batch the three
  employee counts once they are read and the numbers of documents activated and removed
  once the writes are done. The rows "End time" and "Process duration", and the three
  document counts of the legal hold batch, are empty unless every request was answered, so
  the report is complete exactly when the whole run succeeds.
\<close>

theorem C8_first_failed_request_decides_page:
  fixes tz :: zone and newDate :: "string \<Rightarrow> int option" and faults :: "nat \<Rightarrow> string option"
    and startedAt today endedAt :: int and st :: Store and pg :: Page and i :: nat and e :: string
  defines "rr \<equiv> snd (runBatch_retention tz newDate faults startedAt today endedAt st pg)"
  defines "rl \<equiv> snd (runBatch_legalHold tz faults startedAt endedAt st pg)"
  defines "sl \<equiv> fst (runBatch_legalHold tz faults startedAt endedAt st pg)"
  defines "nR \<equiv> requestsRetention tz newDate today st"
  defines "nL \<equiv> requestsLegalHold st"
  defines "nE \<equiv> length (employeeParts st)"
  defines "nW \<equiv> 7 + length (activateParts st) + length (removeParts st)"
  assumes answered: "\<forall>j<i. faults j = None"
  shows \<open>(i \<le> nR \<and> (i < nR \<longrightarrow> faults i = Some e) \<longrightarrow>
     status rr =
       (if i < nR then ''Error: '' @ e else ''Successful: Retention batch finished.'') \<and>
     busy rr = False \<and>
     shown ''Start time'' rr =
       replicate (length (shown ''Start time'' pg)) (fmtTimeWithMs tz (Some startedAt)) \<and>
     shown ''Total number of documents'' rr =
       replicate (length (shown ''Total number of documents'' pg))
         (if 1 \<le> i then String (int (length (documents st))) else []) \<and>
     shown ''Total number of updated retention status'' rr =
       replicate (length (shown ''Total number of updated retention status'' pg))
         (if 1 + nE \<le> i then String (int (length (plannedUpdates tz newDate today st))) else []) \<and>
     shown ''Number of documents in status "not set"'' rr =
       replicate (length (shown ''Number of documents in status "not set"'' pg))
         (if 1 + nE \<le> i then String (int (plannedCounts tz newDate today st ''not set'')) else []) \<and>
     shown ''Number of documents in status "not started"'' rr =
       replicate (length (shown ''Number of documents in status "not started"'' pg))
         (if 1 + nE \<le> i then String (int (plannedCounts tz newDate today st ''not started''))
          else []) \<and>
     shown ''Number of documents in status "started"'' rr =
       replicate (length (shown ''Number of documents in status "started"'' pg))
         (if 1 + nE \<le> i then String (int (plannedCounts tz newDate today st ''started'')) else []) \<and>
     shown ''Number of documents in status "legal hold"'' rr =
       replicate (length (shown ''Number of documents in status "legal hold"'' pg))
         (if 1 + nE \<le> i then String (int (plannedCounts tz newDate today st ''legal hold''))
          else []) \<and>
     shown ''Number of documents in status "expired"'' rr =
       replicate (length (shown ''Number of documents in status "expired"'' pg))
         (if 1 + nE \<le> i then String (int (plannedCounts tz newDate today st ''expired'')) else []) \<and>
     shown ''End time'' rr =
       replicate (length (shown ''End time'' pg))
         (if i < nR then [] else fmtTimeWithMs tz (Some endedAt)) \<and>
     shown ''Process duration'' rr =
       replicate (length (shown ''Process duration'' pg))
         (if i < nR then [] else String (endedAt - startedAt) @ '' ms'')) \<and>
    (i \<le> nL \<and> (i < nL \<longrightarrow> faults i = Some e) \<longrightarrow>
     status rl =
       (if i < nL then ''Error: '' @ e else ''Successful: Legal Hold batch finished.'') \<and>
     busy rl = False \<and>
     shown ''Start time'' rl =
       replicate (length (shown ''Start time'' pg)) (fmtTimeWithMs tz (Some startedAt)) \<and>
     shown ''Employees, Legal Hold = no'' rl =
       replicate (length (shown ''Employees, Legal Hold = no'' pg))
         (if 3 \<le> i then String (int (length (empsWithHold False (employees st)))) else []) \<and>
     shown ''Employees, Legal Hold = yes'' rl =
       replicate (length (shown ''Employees, Legal Hold = yes'' pg))
         (if 3 \<le> i then String (int (length (empsWithHold True (employees st)))) else []) \<and>
     shown ''Employees, Total'' rl =
       replicate (length (shown ''Employees, Total'' pg))
         (if 3 \<le> i then String (int (length (employees st))) else []) \<and>
     shown ''Legal Hold activated (Yes) for documents'' rl =
       replicate (length (shown ''Legal Hold activated (Yes) for documents'' pg))
         (if nW \<le> i
          then String (int (length (activateDocIds (docsWithHold False (documents st))
                 (empsWithHold True (employees st)))))
          else []) \<and>
     shown ''Legal Hold removed (No) for documents'' rl =
       replicate (length (shown ''Legal Hold removed (No) for documents'' pg))
         (if nW \<le> i
          then String (int (length (removeDocIds (docsWithHold True (documents st))
                 (empsWithHold False (employees st)))))
          else []) \<and>
     shown ''Documents, Legal Hold = no'' rl =
       replicate (length (shown ''Documents, Legal Hold = no'' pg))
         (if i < nL then [] else String (int (length (docsWithHold False (documents sl))))) \<and>
     shown ''Documents, Legal Hold = yes'' rl =
       replicate (length (shown ''Documents, Legal Hold = yes'' pg))
         (if i < nL then [] else String (int (length (docsWithHold True (documents sl))))) \<and>
     shown ''Documents, Total'' rl =
       replicate (length (shown ''Documents, Total'' pg))
         (if i < nL then [] else String (int (length (documents sl)))) \<and>
     shown ''End time'' rl =
       replicate (length (shown ''End time'' pg))
         (if i < nL then [] else fmtTimeWithMs tz (Some endedAt)) \<and>
     shown ''Process duration'' rl =
       replicate (length (shown ''Process duration'' pg))
         (if i < nL then [] else String (endedAt - startedAt) @ '' ms''))\<close>
    (is \<open>(?PR \<longrightarrow> ?R) \<and> (?PL \<longrightarrow> ?L)\<close>)
proof (rule conjI; rule impI)
  assume ?PR
  then have "i \<le> requestsRetention tz newDate today st"
    "i < requestsRetention tz newDate today st \<longrightarrow> faults i = Some e"
    by (simp_all add: nR_def)
  from runBatch_retention_report [OF answered this, of startedAt endedAt pg]
  show ?R unfolding rr_def nR_def nE_def .
next
  assume ?PL
  then have "i \<le> requestsLegalHold st" "i < requestsLegalHold st \<longrightarrow> faults i = Some e"
    by (simp_all add: nL_def)
  from runBatch_legalHold_report [OF answered this, of tz startedAt endedAt pg]
  show ?L unfolding rl_def sl_def nL_def nW_def .
qed

theorem C8_first_failed_request_decides_page_witness:
  "requestsRetention zoneUTC isoDate day_2024_06_01 exampleStore = 6 \<and>
   requestsLegalHold exampleStore = 12 \<and>
   map (failAt 3) [0, 1, 2] = [None, None, None] \<and> failAt 3 3 = Some ''timeout'' \<and>
   status (snd (runBatch_retention zoneUTC isoDate (failAt 3) 1000 day_2024_06_01 4500
      exampleStore pageRetention)) = ''Error: timeout'' \<and>
   shown ''Total number of documents'' (snd (runBatch_retention zoneUTC isoDate (failAt 3) 1000
      day_2024_06_01 4500 exampleStore pageRetention)) = [''4''] \<and>
   shown ''Total number of updated retention status'' (snd (runBatch_retention zoneUTC isoDate
      (failAt 3) 1000 day_2024_06_01 4500 exampleStore pageRetention)) = [''4''] \<and>
   shown ''End time'' (snd (runBatch_retention zoneUTC isoDate (failAt 3) 1000
      day_2024_06_01 4500 exampleStore pageRetention)) = [[]] \<and>
   status (snd (runBatch_legalHold zoneUTC (failAt 3) 1000 4500 exampleStore pageLegalHold))
     = ''Error: timeout'' \<and>
   shown ''Employees, Total'' (snd (runBatch_legalHold zoneUTC (failAt 3) 1000 4500 exampleStore
      pageLegalHold)) = [''2''] \<and>
   shown ''Legal Hold activated (Yes) for documents'' (snd (runBatch_legalHold zoneUTC (failAt 3)
      1000 4500 exampleStore pageLegalHold)) = [[]] \<and>
   shown ''Documents, Total'' (snd (runBatch_legalHold zoneUTC (failAt 3) 1000 4500 exampleStore
      pageLegalHold)) = [[]] \<and>
   status (snd (runBatch_retention zoneUTC isoDate (\<lambda>_. None) 1000 day_2024_06_01 4500
      exampleStore pageRetention)) = ''Successful: Retention batch finished.'' \<and>
   shown ''End time'' (snd (runBatch_retention zoneUTC isoDate (\<lambda>_. None) 1000 day_2024_06_01
      4500 exampleStore pageRetention)) = [''00:00:04.500''] \<and>
   status (snd (runBatch_legalHold zoneUTC (\<lambda>_. None) 1000 4500 exampleStore pageLegalHold))
     = ''Successful: Legal Hold batch finished.'' \<and>
   shown ''Process duration'' (snd (runBatch_legalHold zoneUTC (\<lambda>_. None) 1000 4500 exampleStore
      pageLegalHold)) = [''3500 ms'']"
proof -
  have nR: "requestsRetention zoneUTC isoDate day_2024_06_01 exampleStore = 6" by code_simp
  have nL: "requestsLegalHold exampleStore = 12" by code_simp
  have m: "map (failAt 3) [0, 1, 2] = [None, None, None]" by (simp add: failAt_def)
  have f: "failAt 3 3 = Some ''timeout''" by (simp add: failAt_def)
  have p: "\<forall>j<3. failAt 3 j = None" by (simp add: failAt_def)
  have q: "\<forall>j<n. (\<lambda>_. None :: string option) j = None" for n :: nat by simp
  have hR: "3 \<le> requestsRetention zoneUTC isoDate day_2024_06_01 exampleStore \<and>
      (3 < requestsRetention zoneUTC isoDate day_2024_06_01 exampleStore \<longrightarrow>
         failAt 3 3 = Some ''timeout'')"
    by (simp add: nR f)
  have hL: "3 \<le> requestsLegalHold exampleStore \<and>
      (3 < requestsLegalHold exampleStore \<longrightarrow> failAt 3 3 = Some ''timeout'')"
    by (simp add: nL f)
  have gR: "6 \<le> requestsRetention zoneUTC isoDate day_2024_06_01 exampleStore \<and>
      (6 < requestsRetention zoneUTC isoDate day_2024_06_01 exampleStore \<longrightarrow>
         (\<lambda>_. None) (6::nat) = Some [])"
    by (simp add: nR)
  have gL: "12 \<le> requestsLegalHold exampleStore \<and>
      (12 < requestsLegalHold exampleStore \<longrightarrow> (\<lambda>_. None) (12::nat) = Some [])"
    by (simp add: nL)
  note FR = C8_first_failed_request_decides_page [where faults = "failAt 3" and i = 3
      and e = "''timeout''" and tz = zoneUTC and newDate = isoDate and startedAt = 1000
      and today = day_2024_06_01 and endedAt = 4500 and st = exampleStore
      and pg = pageRetention, OF p, THEN conjunct1, THEN mp, OF hR, unfolded nR]
  note FL = C8_first_failed_request_decides_page [where faults = "failAt 3" and i = 3
      and e = "''timeout''" and tz = zoneUTC and newDate = isoDate and startedAt = 1000
      and today = day_2024_06_01 and endedAt = 4500 and st = exampleStore
      and pg = pageLegalHold, OF p, THEN conjunct2, THEN mp, OF hL, unfolded nL]
  note SR = C8_first_failed_request_decides_page [where faults = "\<lambda>_. None" and i = 6
      and e = "[]" and tz = zoneUTC and newDate = isoDate and startedAt = 1000
      and today = day_2024_06_01 and endedAt = 4500 and st = exampleStore
      and pg = pageRetention, OF q, THEN conjunct1, THEN mp, OF gR, unfolded nR]
  note SL = C8_first_failed_request_decides_page [where faults = "\<lambda>_. None" and i = 12
      and e = "[]" and tz = zoneUTC and newDate = isoDate and startedAt = 1000
      and today = day_2024_06_01 and endedAt = 4500 and st = exampleStore
      and pg = pageLegalHold, OF q, THEN conjunct2, THEN mp, OF gL, unfolded nL]
  have v1: "replicate (length (shown ''Total number of documents'' pageRetention))
      (if 1 \<le> (3::nat) then String (int (length (documents exampleStore))) else []) = [''4'']"
    by code_simp
  have v2: "replicate (length (shown ''Total number of updated retention status'' pageRetention))
      (if 1 + length (employeeParts exampleStore) \<le> 3
       then String (int (length (plannedUpdates zoneUTC isoDate day_2024_06_01 exampleStore)))
       else []) = [''4'']"
    by code_simp
  have v3: "replicate (length (shown ''End time'' pageRetention))
      (if (3::nat) < 6 then [] else fmtTimeWithMs zoneUTC (Some 4500)) = [[]]"
    by code_simp
  have v4: "replicate (length (shown ''Employees, Total'' pageLegalHold))
      (if 3 \<le> (3::nat) then String (int (length (employees exampleStore))) else []) = [''2'']"
    by code_simp
  have v5: "replicate (length (shown ''Legal Hold activated (Yes) for documents'' pageLegalHold))
      (if 7 + length (activateParts exampleStore) + length (removeParts exampleStore) \<le> 3
       then String (int (length (activateDocIds (docsWithHold False (documents exampleStore))
              (empsWithHold True (employees exampleStore)))))
       else []) = [[]]"
    by code_simp
  have v6: "replicate (length (shown ''Documents, Total'' pageLegalHold))
      (if (3::nat) < 12 then []
       else String (int (length (documents (fst (runBatch_legalHold zoneUTC (failAt 3) 1000 4500
              exampleStore pageLegalHold)))))) = [[]]"
    by code_simp
  have v7: "replicate (length (shown ''End time'' pageRetention))
      (if (6::nat) < 6 then [] else fmtTimeWithMs zoneUTC (Some 4500)) = [''00:00:04.500'']"
    by code_simp
  have v8: "replicate (length (shown ''Process duration'' pageLegalHold))
      (if (12::nat) < 12 then [] else String (4500 - 1000) @ '' ms'') = [''3500 ms'']"
    by code_simp
  have a1: "status (snd (runBatch_retention zoneUTC isoDate (failAt 3) 1000 day_2024_06_01 4500
      exampleStore pageRetention)) = ''Error: timeout''"
    using FR by simp
  have a2: "shown ''Total number of documents'' (snd (runBatch_retention zoneUTC isoDate (failAt 3) 1000
      day_2024_06_01 4500 exampleStore pageRetention)) = [''4'']"
    using FR unfolding v1 by (elim conjE)
  have a3: "shown ''Total number of updated retention status'' (snd (runBatch_retention zoneUTC isoDate
      (failAt 3) 1000 day_2024_06_01 4500 exampleStore pageRetention)) = [''4'']"
    using FR unfolding v2 by (elim conjE)
  have a4: "shown ''End time'' (snd (runBatch_retention zoneUTC isoDate (failAt 3) 1000
      day_2024_06_01 4500 exampleStore pageRetention)) = [[]]"
    using FR unfolding v3 by (elim conjE)
  have b1: "status (snd (runBatch_legalHold zoneUTC (failAt 3) 1000 4500 exampleStore pageLegalHold))
     = ''Error: timeout''"
    using FL by simp
  have b2: "shown ''Employees, Total'' (snd (runBatch_legalHold zoneUTC (failAt 3) 1000 4500 exampleStore
      pageLegalHold)) = [''2'']"
    using FL unfolding v4 by (elim conjE)
  have b3: "shown ''Legal Hold activated (Yes) for documents'' (snd (runBatch_legalHold zoneUTC (failAt 3)
      1000 4500 exampleStore pageLegalHold)) = [[]]"
    using FL unfolding v5 by (elim conjE)
  have b4: "shown ''Documents, Total'' (snd (runBatch_legalHold zoneUTC (failAt 3) 1000 4500 exampleStore
      pageLegalHold)) = [[]]"
    using FL unfolding v6 by (elim conjE)
  have c1: "status (snd (runBatch_retention zoneUTC isoDate (\<lambda>_. None) 1000 day_2024_06_01 4500
      exampleStore pageRetention)) = ''Successful: Retention batch finished.''"
    using SR by simp
  have c2: "shown ''End time'' (snd (runBatch_retention zoneUTC isoDate (\<lambda>_. None) 1000 day_2024_06_01
      4500 exampleStore pageRetention)) = [''00:00:04.500'']"
    using SR unfolding v7 by (elim conjE)
  have d1: "status (snd (runBatch_legalHold zoneUTC (\<lambda>_. None) 1000 4500 exampleStore pageLegalHold))
     = ''Successful: Legal Hold batch finished.''"
    using SL by simp
  have d2: "shown ''Process duration'' (snd (runBatch_legalHold zoneUTC (\<lambda>_. None) 1000 4500 exampleStore
      pageLegalHold)) = [''3500 ms'']"
    using SL unfolding v8 by (elim conjE)
  show ?thesis by (intro conjI nR nL m f a1 a2 a3 a4 b1 b2 b3 b4 c1 c2 d1 d2)
qed

section \<open>Two runs of the retention batch in succession\<close>

lemma tryRetention_no_faults:
  "fst (tryRetention tz newDate (\<lambda>_. None) startedAt today endedAt st pg) = None"
proof -
  have "\<forall>j<1 + length (employeeParts st) + length (plannedUpdates tz newDate today st).
      (\<lambda>_. None :: string option) j = None"
    by simp
  from tryRetention_stages(4) [OF this refl, of startedAt endedAt pg] show ?thesis by auto
qed

lemma applyUpdates_no_faults_eq:
  "applyUpdates (\<lambda>_. None) us k docs =
     (None, foldl (\<lambda>ds u. updateRetention u ds) docs us, k + length us)"
  by (induction us arbitrary: k docs) simp_all

lemma applyChunks_no_faults_eq:
  "applyChunks (\<lambda>_. None) parts k docs =
     (None, foldl (\<lambda>ds u. updateRetention u ds) docs (concat parts), k + length (concat parts))"
  by (induction parts arbitrary: k docs) (simp_all add: applyUpdates_no_faults_eq)

lemma updates_keep_e_id:
  "map e_id (foldl (\<lambda>ds u. updateRetention u ds) docs ups) = map e_id docs"
  by (simp add: updates_fold comp_def split: option.splits cong: map_cong)

lemma tryRetention_no_faults_eq:
  assumes "loadEmployees (\<lambda>_. None) (employees st)
      (chunk (uniq (map the (filter truthy (map e_id (documents st))))) 500) 1 Map.empty = Inr (M, k)"
  shows "fst (snd (tryRetention tz newDate (\<lambda>_. None) startedAt today endedAt st pg)) =
      st\<lparr>documents := foldl (\<lambda>ds u. updateRetention u ds) (documents st)
        (snd (processDocs tz newDate today M (documents st)))\<rparr>"
    and "shown ''Total number of updated retention status''
        (snd (snd (tryRetention tz newDate (\<lambda>_. None) startedAt today endedAt st pg))) =
      replicate (length (shown ''Total number of updated retention status'' pg))
        (String (int (length (snd (processDocs tz newDate today M (documents st))))))"
  using assms
  by (simp_all add: tryRetention_def Let_def applyChunks_no_faults_eq concat_chunk
      shown_setValue_same shown_setValue_other)

lemma runBatch_retention_no_faults_eq:
  assumes "loadEmployees (\<lambda>_. None) (employees st)
      (chunk (uniq (map the (filter truthy (map e_id (documents st))))) 500) 1 Map.empty = Inr (M, k)"
  shows "fst (runBatch_retention tz newDate (\<lambda>_. None) startedAt today endedAt st pg) =
      st\<lparr>documents := foldl (\<lambda>ds u. updateRetention u ds) (documents st)
        (snd (processDocs tz newDate today M (documents st)))\<rparr>"
    and "set (shown ''Total number of updated retention status''
        (snd (runBatch_retention tz newDate (\<lambda>_. None) startedAt today endedAt st pg))) \<subseteq>
      {String (int (length (snd (processDocs tz newDate today M (documents st)))))}"
proof -
  define pg1 where "pg1 = setValue ''Start time'' (fmtTimeWithMs tz (Some startedAt))
    (clearAllValues (pg\<lparr>busy := True, status := []\<rparr>))"
  obtain st' pg' where t: "tryRetention tz newDate (\<lambda>_. None) startedAt today endedAt st pg1 =
      (None, st', pg')"
    using tryRetention_no_faults [of tz newDate startedAt today endedAt st pg1]
    by (cases "tryRetention tz newDate (\<lambda>_. None) startedAt today endedAt st pg1") auto
  have r: "runBatch_retention tz newDate (\<lambda>_. None) startedAt today endedAt st pg =
      (st', pg'\<lparr>status := ''Successful: Retention batch finished.'', busy := False\<rparr>)"
    by (simp add: runBatch_retention_def Let_def pg1_def [symmetric] t)
  from tryRetention_no_faults_eq [OF assms, of tz newDate startedAt today endedAt pg1]
  have "st' = st\<lparr>documents := foldl (\<lambda>ds u. updateRetention u ds) (documents st)
        (snd (processDocs tz newDate today M (documents st)))\<rparr>"
    and "shown ''Total number of updated retention status'' pg' =
      replicate (length (shown ''Total number of updated retention status'' pg1))
        (String (int (length (snd (processDocs tz newDate today M (documents st))))))"
    by (simp_all add: t)
  then show "fst (runBatch_retention tz newDate (\<lambda>_. None) startedAt today endedAt st pg) =
      st\<lparr>documents := foldl (\<lambda>ds u. updateRetention u ds) (documents st)
        (snd (processDocs tz newDate today M (documents st)))\<rparr>"
    and "set (shown ''Total number of updated retention status''
        (snd (runBatch_retention tz newDate (\<lambda>_. None) startedAt today endedAt st pg))) \<subseteq>
      {String (int (length (snd (processDocs tz newDate today M (documents st)))))}"
    by (auto simp: r shown_status_busy)
qed

lemma second_run_changes_nothing:
  fixes pg :: Page and st :: Store and tz :: zone
    and startedAt today endedAt startedAt' today' endedAt' :: int
    and newDate :: "string \<Rightarrow> int option"
  assumes key: "distinct (map d_id (documents st))"
    and day: "Day (LocalTime tz today') = Day (LocalTime tz today)"
  defines "r1 \<equiv> runBatch_retention tz newDate (\<lambda>_. None) startedAt today endedAt st pg"
  defines "r2 \<equiv> runBatch_retention tz newDate (\<lambda>_. None) startedAt' today' endedAt' (fst r1) (snd r1)"
  shows "fst r2 = fst r1"
    and "set (shown ''Total number of updated retention status'' (snd r2)) \<subseteq> {''0''}"
proof -
  obtain M k where L: "loadEmployees (\<lambda>_. None) (employees st)
      (chunk (uniq (map the (filter truthy (map e_id (documents st))))) 500) 1 Map.empty = Inr (M, k)"
    using loadEmployees_no_faults by blast
  define docs1 where "docs1 = foldl (\<lambda>ds u. updateRetention u ds) (documents st)
        (snd (processDocs tz newDate today M (documents st)))"
  have s1: "fst r1 = st\<lparr>documents := docs1\<rparr>"
    unfolding r1_def docs1_def by (rule runBatch_retention_no_faults_eq(1) [OF L])
  have e: "map e_id docs1 = map e_id (documents st)"
    unfolding docs1_def by (rule updates_keep_e_id)
  have L2: "loadEmployees (\<lambda>_. None) (employees (fst r1))
      (chunk (uniq (map the (filter truthy (map e_id (documents (fst r1)))))) 500) 1 Map.empty = Inr (M, k)"
    using L by (simp add: s1 e)
  have z: "snd (processDocs tz newDate today' M (documents (fst r1))) = []"
    using second_run_no_updates [OF key day, of newDate M] by (simp add: s1 docs1_def)
  show "fst r2 = fst r1"
    unfolding r2_def runBatch_retention_no_faults_eq(1) [OF L2] z by simp
  have "String (int (length ([] :: Update list))) = ''0''" by code_simp
  then show "set (shown ''Total number of updated retention status'' (snd r2)) \<subseteq> {''0''}"
    using runBatch_retention_no_faults_eq(2) [OF L2, of tz newDate startedAt' today' endedAt' "snd r1"]
    by (simp add: r2_def z)
qed

text \<open>
  C6: the loop queues a write for a document (one with a \<^verbatim>\<open>d_id\<close>) exactly when the pair
  of its stored status and stored deletion date, each normalised by \<^verbatim>\<open>norm\<close> (null becomes
  the empty string), differs from the pair of the new status and the new deletion date or
  the empty string. So when the writes of one pass have been applied and nothing else has
  changed, a second pass on the same day, at whatever time, queues no write; and of two
  runs of the batch in succession, without error and on the same day, the second leaves
  the store as it is and reports 0 updates. The documents are told apart by their
  \<^verbatim>\<open>d_id\<close>, the key the writes select by.
\<close>

theorem C6_write_iff_changed_and_idempotent:
  fixes pg :: Page and st :: Store and tz :: zone
    and startedAt today endedAt startedAt' today' endedAt' :: int
    and newDate :: "string \<Rightarrow> int option" and empMap :: "string \<rightharpoonup> EmpMini"
  defines "r1 \<equiv> runBatch_retention tz newDate (\<lambda>_. None) startedAt today endedAt st pg"
  defines "r2 \<equiv> runBatch_retention tz newDate (\<lambda>_. None) startedAt' today' endedAt' (fst r1) (snd r1)"
  assumes key: "distinct (map d_id (documents st))"
    and day: "Day (LocalTime tz today') = Day (LocalTime tz today)"
  shows "snd (processDocs tz newDate today empMap (documents st)) =
      map (\<lambda>d. (d_id d, targetPair tz newDate today empMap d))
        (filter (\<lambda>d. d_id d \<noteq> [] \<and>
             (norm (d_r_status d), norm (d_r_deletion d)) \<noteq>
               (fst (targetPair tz newDate today empMap d),
                case snd (targetPair tz newDate today empMap d) of None \<Rightarrow> [] | Some x \<Rightarrow> x))
           (documents st)) \<and>
    snd (processDocs tz newDate today' empMap
           (foldl (\<lambda>ds u. updateRetention u ds) (documents st)
              (snd (processDocs tz newDate today empMap (documents st))))) = [] \<and>
    fst r2 = fst r1 \<and>
    set (shown ''Total number of updated retention status'' (snd r2)) \<subseteq> {''0''}"
proof -
  have "changed d tp = ((norm (d_r_status d), norm (d_r_deletion d)) \<noteq>
      (fst tp, case snd tp of None \<Rightarrow> [] | Some x \<Rightarrow> x))" for d tp
    by (auto simp: changed_def Let_def)
  then have a: "snd (processDocs tz newDate today empMap (documents st)) =
      map (\<lambda>d. (d_id d, targetPair tz newDate today empMap d))
        (filter (\<lambda>d. d_id d \<noteq> [] \<and>
             (norm (d_r_status d), norm (d_r_deletion d)) \<noteq>
               (fst (targetPair tz newDate today empMap d),
                case snd (targetPair tz newDate today empMap d) of None \<Rightarrow> [] | Some x \<Rightarrow> x))
           (documents st))"
    by (simp add: processDocs_updates)
  show ?thesis
    unfolding r1_def r2_def
    by (intro conjI a second_run_no_updates [OF key day] second_run_changes_nothing [OF key day])
qed

theorem C6_write_iff_changed_and_idempotent_witness:
  "distinct (map d_id (documents exampleStore)) \<and>
   Day (LocalTime zoneUTC (day_2024_06_01 + 3600000)) = Day (LocalTime zoneUTC day_2024_06_01) \<and>
   snd (processDocs zoneUTC isoDate day_2024_06_01 [''E2'' \<mapsto> empScenarioB] (documents exampleStore)) =
     [(''D4'', ''expired'', Some ''2024-01-15''), (''D2'', ''legal hold'', None),
      (''D3'', ''not started'', None), (''D1'', ''expired'', Some ''2023-12-01'')] \<and>
   snd (processDocs zoneUTC isoDate (day_2024_06_01 + 3600000) [''E2'' \<mapsto> empScenarioB]
          (foldl (\<lambda>ds u. updateRetention u ds) (documents exampleStore)
             (snd (processDocs zoneUTC isoDate day_2024_06_01 [''E2'' \<mapsto> empScenarioB]
                (documents exampleStore))))) = [] \<and>
   fst (runBatch_retention zoneUTC isoDate (\<lambda>_. None) 9000 (day_2024_06_01 + 3600000) 9500
          (fst (runBatch_retention zoneUTC isoDate (\<lambda>_. None) 1000 day_2024_06_01 4500
                  exampleStore pageRetention))
          (snd (runBatch_retention zoneUTC isoDate (\<lambda>_. None) 1000 day_2024_06_01 4500
                  exampleStore pageRetention))) =
     fst (runBatch_retention zoneUTC isoDate (\<lambda>_. None) 1000 day_2024_06_01 4500
            exampleStore pageRetention) \<and>
   shown ''Total number of updated retention status''
     (snd (runBatch_retention zoneUTC isoDate (\<lambda>_. None) 1000 day_2024_06_01 4500
            exampleStore pageRetention)) = [''4'']"
proof -
  have h1: "distinct (map d_id (documents exampleStore))" by code_simp
  have h2: "Day (LocalTime zoneUTC (day_2024_06_01 + 3600000)) = Day (LocalTime zoneUTC day_2024_06_01)"
    by code_simp
  have u: "snd (processDocs zoneUTC isoDate day_2024_06_01 [''E2'' \<mapsto> empScenarioB] (documents exampleStore)) =
     [(''D4'', ''expired'', Some ''2024-01-15''), (''D2'', ''legal hold'', None),
      (''D3'', ''not started'', None), (''D1'', ''expired'', Some ''2023-12-01'')]"
    by code_simp
  note T = C6_write_iff_changed_and_idempotent
      [where newDate = isoDate and empMap = "[''E2'' \<mapsto> empScenarioB]" and pg = pageRetention
        and startedAt = 1000 and endedAt = 4500 and startedAt' = 9000 and endedAt' = 9500,
        OF h1 h2]
  have z: "snd (processDocs zoneUTC isoDate (day_2024_06_01 + 3600000) [''E2'' \<mapsto> empScenarioB]
          (foldl (\<lambda>ds u. updateRetention u ds) (documents exampleStore)
             (snd (processDocs zoneUTC isoDate day_2024_06_01 [''E2'' \<mapsto> empScenarioB]
                (documents exampleStore))))) = []"
    using T by (elim conjE)
  have s: "fst (runBatch_retention zoneUTC isoDate (\<lambda>_. None) 9000 (day_2024_06_01 + 3600000) 9500
          (fst (runBatch_retention zoneUTC isoDate (\<lambda>_. None) 1000 day_2024_06_01 4500
                  exampleStore pageRetention))
          (snd (runBatch_retention zoneUTC isoDate (\<lambda>_. None) 1000 day_2024_06_01 4500
                  exampleStore pageRetention))) =
     fst (runBatch_retention zoneUTC isoDate (\<lambda>_. None) 1000 day_2024_06_01 4500
            exampleStore pageRetention)"
    using T by (elim conjE)
  have c: "shown ''Total number of updated retention status''
     (snd (runBatch_retention zoneUTC isoDate (\<lambda>_. None) 1000 day_2024_06_01 4500
            exampleStore pageRetention)) = [''4'']"
    by code_simp
  show ?thesis by (intro conjI h1 h2 u z s c)
qed

end
